theory Spec2Isabelle
  imports
    Main
    "HOL-Library.Char_ord"
    "HOL-Library.List_Lexorder"
    "HOL-Library.Multiset"
begin

section \<open>GreenGuardRawLoader: the raw-log assembly of \<^verbatim>\<open>greenguard/loader.py\<close>\<close>

text \<open>
  The theory embeds the class \<^verbatim>\<open>GreenGuardRawLoader\<close>. What the code computes itself
  (selection of files by name, the two row filters, the loops over files and turbines, the
  duplicate check, the copy of the caller's table) is translated function by function.
  What it delegates to the standard library and to pandas is modelled as follows.

  \<^item> An instant (\<^verbatim>\<open>pandas.Timestamp\<close>, \<^verbatim>\<open>datetime.datetime\<close>) is an integer: the number
    of seconds since 0001-01-01 00:00:00, so that \<^verbatim>\<open>datetime.min\<close> is \<open>0\<close>. Instants
    compare as integers. The resolution is one second (the resolution of the log format).
    A column of pandas timestamps holds 64-bit counts of nanoseconds since 1970: at whole
    seconds these are the instants from \<open>timestamp_min\<close> to \<open>timestamp_max\<close>, and the
    subtraction of the lookback raises when its result leaves that range.
  \<^item> A column has a type. The start column that \<^verbatim>\<open>_get_times\<close> builds from
    \<^verbatim>\<open>datetime.min\<close> objects (line 224) lies outside the range of pandas timestamps and
    keeps the type \<^verbatim>\<open>object\<close>, on which the accessor \<^verbatim>\<open>.dt\<close> of line 146 raises.
  \<^item> Strings are byte lists in their lexicographic order, the order of Python's \<^verbatim>\<open>str\<close>
    comparison on code points.
  \<^item> The parsers \<^verbatim>\<open>pd.to_datetime\<close> and \<^verbatim>\<open>pd.to_timedelta\<close> and the file system are
    parameters of the model (record \<open>env\<close> below): a general theorem holds for every parser
    and every directory content.
  \<^item> A log file is the table \<^verbatim>\<open>pd.read_csv\<close> returns: the header as the file has it,
    and of every row the cells of the three columns the class documents (timestamp,
    signal, value), kept as texts. The cells of other columns and missing values
    (\<^verbatim>\<open>NaT\<close>) are not modelled.

  The class \<^verbatim>\<open>GreenGuardLoader\<close> and \<^verbatim>\<open>load_demo\<close> read tables as they are and are not
  part of the model.
\<close>

subsection \<open>The proleptic Gregorian calendar behind \<^verbatim>\<open>strftime\<close>\<close>

type_synonym timestamp = int

definition datetime_min :: timestamp where
  "datetime_min = 0"

definition is_leap :: "int \<Rightarrow> bool" where
  "is_leap y \<longleftrightarrow> (y mod 4 = 0 \<and> y mod 100 \<noteq> 0) \<or> y mod 400 = 0"

text \<open>The number of days before the first of January of year \<open>y\<close>, from year 1 on.\<close>

definition days_before_year :: "int \<Rightarrow> int" where
  "days_before_year y = (let p = y - 1 in 365 * p + p div 4 - p div 100 + p div 400)"

definition days_in_month :: "int \<Rightarrow> int \<Rightarrow> int" where
  "days_in_month y m =
     (if m = 2 then (if is_leap y then 29 else 28)
      else if m = 4 \<or> m = 6 \<or> m = 9 \<or> m = 11 then 30 else 31)"

function days_before_month :: "int \<Rightarrow> int \<Rightarrow> int" where
  "days_before_month y m =
     (if m \<le> 1 then 0 else days_before_month y (m - 1) + days_in_month y (m - 1))"
  by pat_completeness auto
termination
  by (relation "measure (\<lambda>(y, m). nat m)") auto

declare days_before_month.simps [simp del]

text \<open>
  The year of day number \<open>n\<close> (day \<open>0\<close> is 0001-01-01): the search starts at a year that
  is late enough, since no year has fewer than 365 days, and walks down to the last year
  that begins on or before day \<open>n\<close>.
\<close>

function find_year :: "int \<Rightarrow> int \<Rightarrow> int" where
  "find_year n y = (if y \<le> 1 \<or> days_before_year y \<le> n then y else find_year n (y - 1))"
  by pat_completeness auto
termination
  by (relation "measure (\<lambda>(n, y). nat y)") auto

declare find_year.simps [simp del]

text \<open>The month of the day \<open>r\<close> of year \<open>y\<close> (\<open>r = 0\<close> is the first of January).\<close>

function find_month :: "int \<Rightarrow> int \<Rightarrow> int \<Rightarrow> int" where
  "find_month y m r =
     (if 12 \<le> m \<or> r < days_in_month y m then m
      else find_month y (m + 1) (r - days_in_month y m))"
  by pat_completeness auto
termination
  by (relation "measure (\<lambda>(y, m, r). nat (12 - m))") auto

declare find_month.simps [simp del]

text \<open>
  The year and the month of an instant. No instant lies before \<^verbatim>\<open>datetime.min\<close>; the
  model reads a negative integer as the first day.
\<close>

definition year_month :: "timestamp \<Rightarrow> int \<times> int" where
  "year_month t =
     (let n = max 0 (t div 86400); y = find_year n (n div 365 + 1)
      in (y, find_month y 1 (n - days_before_year y)))"

text \<open>The instant of a civil date and time of day, for writing concrete inputs.\<close>

definition mk_timestamp :: "int \<Rightarrow> int \<Rightarrow> int \<Rightarrow> int \<Rightarrow> int \<Rightarrow> int \<Rightarrow> timestamp" where
  "mk_timestamp y m d hh mi ss =
     (days_before_year y + days_before_month y m + (d - 1)) * 86400
       + hh * 3600 + mi * 60 + ss"

text \<open>
  \<^verbatim>\<open>pandas.Timestamp.min\<close> is 1677-09-21 00:12:43.145224193 and
  \<^verbatim>\<open>pandas.Timestamp.max\<close> is 2262-04-11 23:47:16.854775807: the first and the last whole
  second of a column of timestamps.
\<close>

definition timestamp_min :: timestamp where
  "timestamp_min = mk_timestamp 1677 9 21 0 12 44"

definition timestamp_max :: timestamp where
  "timestamp_max = mk_timestamp 2262 4 11 23 47 16"

definition digit :: "int \<Rightarrow> char" where
  "digit d = char_of (nat (48 + d mod 10))"

definition zero_pad4 :: "int \<Rightarrow> string" where
  "zero_pad4 n = [digit (n div 1000), digit (n div 100), digit (n div 10), digit n]"

definition zero_pad2 :: "int \<Rightarrow> string" where
  "zero_pad2 n = [digit (n div 10), digit n]"

text \<open>
  \<^verbatim>\<open>strftime('%Y-%m-.csv')\<close> of a pandas timestamp, lines 145 and 146. The years of
  pandas timestamps have four digits.
\<close>

definition strftime_csv :: "timestamp \<Rightarrow> string" where
  "strftime_csv t =
     (case year_month t of (y, m) \<Rightarrow> zero_pad4 y @ ''-'' @ zero_pad2 m @ ''-.csv'')"

subsection \<open>Errors, tables and the environment\<close>

text \<open>Every exception the modelled code can raise is a value.\<close>

datatype error =
    DuplicateRows
  | NoObjectsToConcatenate
  | FileNotFound string
  | ParseError string
  | KeyError string
  | IndexError
  | AttributeError
  | OverflowError

text \<open>
  \<open>DuplicateRows\<close> is the \<^verbatim>\<open>ValueError\<close> of line 282, \<open>NoObjectsToConcatenate\<close> the
  \<^verbatim>\<open>ValueError\<close> of \<^verbatim>\<open>pd.concat\<close> on an empty list, \<open>FileNotFound\<close> the error of
  \<^verbatim>\<open>os.listdir\<close> and \<^verbatim>\<open>pd.read_csv\<close> on a path that cannot be read, \<open>ParseError\<close> the
  error of \<^verbatim>\<open>pd.to_datetime\<close> and \<^verbatim>\<open>pd.to_timedelta\<close> on a text they reject,
  \<open>KeyError\<close> that of \<^verbatim>\<open>X.pop\<close> and of \<^verbatim>\<open>data['timestamp']\<close> on a missing column,
  \<open>IndexError\<close> that of \<^verbatim>\<open>iloc[0]\<close> on an empty column, \<open>AttributeError\<close> that of the
  accessor \<^verbatim>\<open>.dt\<close> on a column that does not hold pandas timestamps and of
  \<^verbatim>\<open>data.signal_id\<close> on a table without that column, and \<open>OverflowError\<close> that of the
  subtraction of line 222 when its result is no pandas timestamp.
\<close>

text \<open>A table: the column names in order, and the rows.\<close>

record 'r frame =
  columns :: "string list"
  rows :: "'r list"

text \<open>
  A row of a log file: its cells for the timestamp, the signal and the value, as texts
  (the header, kept with the table, says under which names the file has them); the row
  after \<^verbatim>\<open>_filter_by_timestamp\<close> has parsed the timestamp; and the row after line 242
  has added the turbine.
\<close>

record raw_reading =
  raw_timestamp :: string
  raw_signal_id :: string
  raw_value :: string

record reading =
  rd_timestamp :: timestamp
  rd_signal_id :: string
  rd_value :: string

record tagged_reading = reading +
  rd_turbine_id :: string

text \<open>
  The target times. A cutoff cell holds a text or an instant; \<open>tt_target\<close> is the cell
  of the column \<^verbatim>\<open>target\<close> and is read only when the table has that column.
\<close>

datatype cell = Text string | Stamp timestamp

record target_row =
  tt_turbine_id :: string
  tt_cutoff_time :: cell
  tt_target :: string

record target_times =
  tt_rows :: "target_row list"
  tt_has_target :: bool

text \<open>
  The view of the target times that \<^verbatim>\<open>_load_readings\<close> reads once line 278 has
  replaced the cutoff column by instants: the columns \<^verbatim>\<open>turbine_id\<close> and
  \<^verbatim>\<open>cutoff_time\<close>.
\<close>

record target_event =
  ev_turbine_id :: string
  ev_cutoff_time :: timestamp

text \<open>
  A row of the table \<^verbatim>\<open>_get_times\<close> builds (columns \<^verbatim>\<open>turbine_id\<close>, \<^verbatim>\<open>start\<close>,
  \<^verbatim>\<open>end\<close>).
\<close>

record window =
  win_turbine_id :: string
  win_start :: timestamp
  win_end :: timestamp

text \<open>
  The table itself: the type of its start column and its rows. The end column is the
  cutoff column and holds pandas timestamps.
\<close>

datatype dtype = Datetime64 | Object

record window_table =
  start_dtype :: dtype
  win_rows :: "window list"

text \<open>
  The environment: the directories and files on disk, and the pandas parsers.
  \<open>read_readings_csv\<close> gives the header and the rows of a log file as \<^verbatim>\<open>pd.read_csv\<close>
  reads them. \<open>to_datetime_format\<close> is \<^verbatim>\<open>pd.to_datetime\<close> with the format
  \<^verbatim>\<open>'%m/%d/%y %H:%M:%S'\<close> of line 178.
\<close>

record env =
  listdir :: "string \<Rightarrow> string list option"
  read_readings_csv :: "string \<Rightarrow> raw_reading frame option"
  read_target_times_csv :: "string \<Rightarrow> target_times option"
  read_signals_csv :: "string \<Rightarrow> string list option"
  to_datetime :: "string \<Rightarrow> timestamp option"
  to_datetime_format :: "string \<Rightarrow> timestamp option"
  to_timedelta :: "string \<Rightarrow> int option"

text \<open>The loader object: its only field is set by \<^verbatim>\<open>__init__\<close>, line 142.\<close>

record GreenGuardRawLoader =
  readings_path :: string

text \<open>\<^verbatim>\<open>os.path.join\<close> of two components (POSIX).\<close>

definition path_join :: "string \<Rightarrow> string \<Rightarrow> string" where
  "path_join a b =
     (if b \<noteq> [] \<and> hd b = CHR ''/'' then b
      else if a = [] \<or> last a = CHR ''/'' then a @ b
      else a @ ''/'' @ b)"

text \<open>
  A parser applied to a whole column raises at the first text it rejects.
\<close>

fun parse_column :: "('a \<Rightarrow> timestamp option) \<Rightarrow> ('a \<Rightarrow> string) \<Rightarrow> 'a list \<Rightarrow> error + timestamp list" where
  "parse_column p shw [] = Inr []"
| "parse_column p shw (c # cs) =
     (case p c of
        None \<Rightarrow> Inl (ParseError (shw c))
      | Some t \<Rightarrow>
          (case parse_column p shw cs of Inl e \<Rightarrow> Inl e | Inr ts \<Rightarrow> Inr (t # ts)))"

text \<open>
  \<^verbatim>\<open>pd.concat\<close> of tables: it raises on an empty list; the columns are those of the
  tables in the order of their first appearance, the rows follow each other.
  \<open>unique\<close> keeps the first occurrence of each element, as \<^verbatim>\<open>Series.unique\<close> does.
\<close>

definition unique :: "'a list \<Rightarrow> 'a list" where
  "unique xs = rev (remdups (rev xs))"

definition pd_concat :: "'r frame list \<Rightarrow> error + 'r frame" where
  "pd_concat fs =
     (if fs = [] then Inl NoObjectsToConcatenate
      else Inr \<lparr>columns = unique (concat (map columns fs)), rows = concat (map rows fs)\<rparr>)"

subsection \<open>\<^verbatim>\<open>_filter_by_filename\<close>, lines 144 to 150\<close>

text \<open>
  Line 146 raises when the start column does not hold pandas timestamps. The function is
  a generator: its body runs when line 201 asks for the first name.
\<close>

definition filter_by_filename :: "window_table \<Rightarrow> string list \<Rightarrow> error + string list" where
  "filter_by_filename X filenames =
     (let max_csv = map (\<lambda>row. strftime_csv (win_end row)) (win_rows X)
      in if start_dtype X \<noteq> Datetime64 then Inl AttributeError
         else (let min_csv = map (\<lambda>row. strftime_csv (win_start row)) (win_rows X)
               in Inr (filter (\<lambda>filename.
                                 list_ex (\<lambda>(lo, hi). lo \<le> filename \<and> filename \<le> hi)
                                   (zip min_csv max_csv))
                         filenames)))"


subsection \<open>\<^verbatim>\<open>_load_readings_file\<close>, \<^verbatim>\<open>_filter_by_signal\<close>, \<^verbatim>\<open>_filter_by_timestamp\<close>\<close>

text \<open>\<^verbatim>\<open>str.lower\<close>, on the letters of ASCII.\<close>

definition str_lower :: "string \<Rightarrow> string" where
  "str_lower s =
     map (\<lambda>c. if CHR ''A'' \<le> c \<and> c \<le> CHR ''Z'' then char_of (of_char c + (32::nat)) else c) s"

text \<open>
  Lines 154 to 161: the names of the columns are put in lower case, \<^verbatim>\<open>signal\<close> becomes
  \<^verbatim>\<open>signal_id\<close>, and a column \<^verbatim>\<open>unnamed: 0\<close> is deleted.
\<close>

definition load_readings_file :: "env \<Rightarrow> string \<Rightarrow> error + raw_reading frame" where
  "load_readings_file e turbine_file =
     (case read_readings_csv e turbine_file of
        None \<Rightarrow> Inl (FileNotFound turbine_file)
      | Some data \<Rightarrow>
          (let lowered = map str_lower (columns data);
               renamed = map (\<lambda>c. if c = ''signal'' then ''signal_id'' else c) lowered
           in Inr (data\<lparr>columns := (if ''unnamed: 0'' \<in> set renamed
                                      then filter (\<lambda>c. c \<noteq> ''unnamed: 0'') renamed
                                      else renamed)\<rparr>)))"

text \<open>
  Lines 167 to 174. \<^verbatim>\<open>data.signal_id\<close> is an attribute of the table only when the table
  has a column of that name.
\<close>

definition filter_by_signal ::
    "raw_reading frame \<Rightarrow> string list option \<Rightarrow> error + raw_reading frame" where
  "filter_by_signal data signals =
     (case signals of
        None \<Rightarrow> Inr data
      | Some signal_id \<Rightarrow>
          if ''signal_id'' \<notin> set (columns data) then Inl AttributeError
          else Inr (data\<lparr>rows := filter (\<lambda>r. raw_signal_id r \<in> set signal_id) (rows data)\<rparr>))"

text \<open>
  Lines 183 to 187: \<open>related\<close> starts all false, every window ors its membership test
  into it, and the rows at the true positions are kept.
\<close>

definition filter_by_timestamp :: "env \<Rightarrow> raw_reading frame \<Rightarrow> window list \<Rightarrow> error + reading frame" where
  "filter_by_timestamp e data X =
     (case parse_column (to_datetime_format e) id (map raw_timestamp (rows data)) of
        Inl err \<Rightarrow> Inl err
      | Inr timestamps \<Rightarrow>
          (let data' = map2 (\<lambda>r t. \<lparr>rd_timestamp = t, rd_signal_id = raw_signal_id r,
                                     rd_value = raw_value r\<rparr>) (rows data) timestamps;
               related = foldl (\<lambda>related row.
                                  map2 (\<or>) related
                                    (map (\<lambda>t. win_start row \<le> t \<and> t \<le> win_end row) timestamps))
                           (replicate (length timestamps) False) X
           in Inr \<lparr>columns = columns data, rows = map fst (filter snd (zip data' related))\<rparr>))"

subsection \<open>\<^verbatim>\<open>_load_turbine_readings\<close>, lines 193 to 216\<close>

text \<open>
  The loop of lines 201 to 207: the first file that fails aborts the call. Line 178
  begins with the lookup \<^verbatim>\<open>data['timestamp']\<close>, which raises when the table has no such
  column; the lookup is made here, before \<open>filter_by_timestamp\<close> is entered.
\<close>

fun load_files :: "env \<Rightarrow> string \<Rightarrow> window list \<Rightarrow> string list option \<Rightarrow> string list
                     \<Rightarrow> error + reading frame list" where
  "load_files e turbine_path X signals [] = Inr []"
| "load_files e turbine_path X signals (readings_file # filenames) =
     (case load_readings_file e (path_join turbine_path readings_file) of
        Inl err \<Rightarrow> Inl err
      | Inr data \<Rightarrow>
          (case filter_by_signal data signals of
             Inl err \<Rightarrow> Inl err
           | Inr selected \<Rightarrow>
               if ''timestamp'' \<notin> set (columns selected) then Inl (KeyError ''timestamp'')
               else (case filter_by_timestamp e selected X of
                       Inl err \<Rightarrow> Inl err
                     | Inr data' \<Rightarrow>
                         (case load_files e turbine_path X signals filenames of
                            Inl err \<Rightarrow> Inl err
                          | Inr readings \<Rightarrow> Inr (data' # readings)))))"

definition load_turbine_readings ::
    "env \<Rightarrow> GreenGuardRawLoader \<Rightarrow> window_table \<Rightarrow> string list option \<Rightarrow> error + reading frame" where
  "load_turbine_readings e self X signals =
     (case win_rows X of
        [] \<Rightarrow> Inl IndexError
      | row # _ \<Rightarrow>
          (let turbine_id = win_turbine_id row;
               turbine_path = path_join (readings_path self) turbine_id
           in case listdir e turbine_path of
                None \<Rightarrow> Inl (FileNotFound turbine_path)
              | Some names \<Rightarrow>
                  (case filter_by_filename X (sort names) of
                     Inl err \<Rightarrow> Inl err
                   | Inr filenames \<Rightarrow>
                       (case load_files e turbine_path (win_rows X) signals filenames of
                          Inl err \<Rightarrow> Inl err
                        | Inr readings \<Rightarrow>
                            if readings \<noteq> [] then pd_concat readings
                            else Inr \<lparr>columns = [''timestamp'', ''signal_id'', ''value'',
                                                 ''turbine_id''],
                                      rows = []\<rparr>))))"

subsection \<open>\<^verbatim>\<open>_get_times\<close>, lines 218 to 230\<close>

text \<open>
  \<^verbatim>\<open>if window_size:\<close> is false for \<^verbatim>\<open>None\<close> and for the empty string. With a lookback
  the start column is the cutoff column less the duration, a column of pandas timestamps,
  and the subtraction raises when a result is none. Without one it is a list of
  \<^verbatim>\<open>datetime.min\<close> objects.
\<close>

definition get_times :: "env \<Rightarrow> target_event list \<Rightarrow> string option \<Rightarrow> error + window_table" where
  "get_times e X window_size =
     (let cutoff_times = map ev_cutoff_time X
      in case (case window_size of
                 None \<Rightarrow> Inr (Object, replicate (length cutoff_times) datetime_min)
               | Some w \<Rightarrow>
                   if w = [] then Inr (Object, replicate (length cutoff_times) datetime_min)
                   else (case to_timedelta e w of
                           None \<Rightarrow> Inl (ParseError w)
                         | Some window_size' \<Rightarrow>
                             if list_all (\<lambda>c. timestamp_min \<le> c - window_size'
                                               \<and> c - window_size' \<le> timestamp_max) cutoff_times
                             then Inr (Datetime64, map (\<lambda>c. c - window_size') cutoff_times)
                             else Inl OverflowError)) of
           Inl err \<Rightarrow> Inl err
         | Inr (dtype, min_times) \<Rightarrow>
             Inr \<lparr>start_dtype = dtype,
                  win_rows =
                    map (\<lambda>(turbine_id, start, end').
                           \<lparr>win_turbine_id = turbine_id, win_start = start, win_end = end'\<rparr>)
                      (zip (map ev_turbine_id X) (zip min_times cutoff_times))\<rparr>)"

subsection \<open>\<^verbatim>\<open>_load_readings\<close>, lines 232 to 245\<close>

text \<open>Line 242, \<^verbatim>\<open>turbine_readings['turbine_id'] = turbine_id\<close>.\<close>

definition set_turbine_id :: "reading frame \<Rightarrow> string \<Rightarrow> tagged_reading frame" where
  "set_turbine_id turbine_readings turbine_id =
     \<lparr>columns = (if ''turbine_id'' \<in> set (columns turbine_readings)
                  then columns turbine_readings
                  else columns turbine_readings @ [''turbine_id'']),
      rows = map (\<lambda>r. \<lparr>rd_timestamp = rd_timestamp r, rd_signal_id = rd_signal_id r,
                          rd_value = rd_value r, rd_turbine_id = turbine_id\<rparr>)
               (rows turbine_readings)\<rparr>"

text \<open>The body of the loop, lines 239 to 242: the readings of one turbine, tagged.\<close>

definition load_turbine ::
    "env \<Rightarrow> GreenGuardRawLoader \<Rightarrow> window_table \<Rightarrow> string list option \<Rightarrow> string
       \<Rightarrow> error + tagged_reading frame" where
  "load_turbine e self X signals turbine_id =
     (let turbine_X = X\<lparr>win_rows := filter (\<lambda>row. win_turbine_id row = turbine_id) (win_rows X)\<rparr>
      in case load_turbine_readings e self turbine_X signals of
           Inl err \<Rightarrow> Inl err
         | Inr turbine_readings \<Rightarrow> Inr (set_turbine_id turbine_readings turbine_id))"

fun load_turbines ::
    "env \<Rightarrow> GreenGuardRawLoader \<Rightarrow> window_table \<Rightarrow> string list option \<Rightarrow> string list
       \<Rightarrow> error + tagged_reading frame list" where
  "load_turbines e self X signals [] = Inr []"
| "load_turbines e self X signals (turbine_id # turbine_ids) =
     (case load_turbine e self X signals turbine_id of
        Inl err \<Rightarrow> Inl err
      | Inr turbine_readings \<Rightarrow>
          (case load_turbines e self X signals turbine_ids of
             Inl err \<Rightarrow> Inl err
           | Inr readings \<Rightarrow> Inr (turbine_readings # readings)))"

definition load_readings ::
    "env \<Rightarrow> GreenGuardRawLoader \<Rightarrow> target_event list \<Rightarrow> string list option \<Rightarrow> string option
       \<Rightarrow> error + tagged_reading frame" where
  "load_readings e self X signals window_size =
     (let turbine_ids = unique (map ev_turbine_id X)
      in case get_times e X window_size of
           Inl err \<Rightarrow> Inl err
         | Inr X' \<Rightarrow>
             (case load_turbines e self X' signals (sort turbine_ids) of
                Inl err \<Rightarrow> Inl err
              | Inr readings \<Rightarrow> pd_concat readings))"

subsection \<open>\<^verbatim>\<open>load\<close>, lines 247 to 297\<close>

text \<open>
  The caller's table is an object that \<^verbatim>\<open>load\<close> receives by reference, and lines 278
  and 293 update a table in place. The objects are therefore kept in a store: a list of
  tables, a reference being a position in it. Creating an object appends it to the store.
\<close>

datatype target_arg = DataFrame nat | CsvPath string

datatype signals_arg = NoSignals | SignalList "string list" | SignalsCsv string

record load_result =
  res_X :: nat
  res_y :: "string list option"
  res_readings :: "tagged_reading frame"

text \<open>
  \<^verbatim>\<open>drop_duplicates(subset=...)\<close> keeps, of the rows that agree on the subset, the
  first one.
\<close>

definition drop_duplicates :: "('a \<Rightarrow> 'k) \<Rightarrow> 'a list \<Rightarrow> 'a list" where
  "drop_duplicates key xs =
     rev (fold (\<lambda>x kept. if key x \<in> key ` set kept then kept else x # kept) xs [])"

definition to_datetime_cell :: "env \<Rightarrow> cell \<Rightarrow> timestamp option" where
  "to_datetime_cell e c = (case c of Stamp t \<Rightarrow> Some t | Text s \<Rightarrow> to_datetime e s)"

definition show_cell :: "cell \<Rightarrow> string" where
  "show_cell c = (case c of Stamp t \<Rightarrow> [] | Text s \<Rightarrow> s)"

text \<open>Lines 284 to 287.\<close>

definition normalise_signals :: "env \<Rightarrow> signals_arg \<Rightarrow> error + string list option" where
  "normalise_signals e signals =
     (case signals of
        NoSignals \<Rightarrow> Inr None
      | SignalList l \<Rightarrow> Inr (Some l)
      | SignalsCsv p \<Rightarrow>
          (case read_signals_csv e p of None \<Rightarrow> Inl (FileNotFound p) | Some l \<Rightarrow> Inr (Some l)))"

text \<open>
  The result is what the call returns or raises, together with the store it leaves.
  \<open>X\<close> is the reference of the table the call creates in line 274 or 276.
\<close>

definition load ::
    "env \<Rightarrow> GreenGuardRawLoader \<Rightarrow> target_times list \<Rightarrow> target_arg \<Rightarrow> signals_arg
       \<Rightarrow> string option \<Rightarrow> bool \<Rightarrow> (error + load_result) \<times> target_times list" where
  "load e self heap target_times signals window_size return_target =
     (case (case target_times of
              DataFrame a \<Rightarrow> Inr (heap ! a)
            | CsvPath p \<Rightarrow>
                (case read_target_times_csv e p of
                   None \<Rightarrow> Inl (FileNotFound p)
                 | Some t \<Rightarrow> Inr t)) of
        Inl err \<Rightarrow> (Inl err, heap)
      | Inr X0 \<Rightarrow>
          (let X = length heap;
               heap1 = heap @ [X0]
           in case parse_column (to_datetime_cell e) show_cell (map tt_cutoff_time (tt_rows X0)) of
                Inl err \<Rightarrow> (Inl err, heap1)
              | Inr cutoff_time \<Rightarrow>
                  (let X1 = X0\<lparr>tt_rows := map2 (\<lambda>r t. r\<lparr>tt_cutoff_time := Stamp t\<rparr>)
                                                (tt_rows X0) cutoff_time\<rparr>;
                       heap2 = heap1[X := X1];
                       without_duplicates =
                         drop_duplicates (\<lambda>r. (tt_cutoff_time r, tt_turbine_id r)) (tt_rows X1)
                   in if length (tt_rows X1) \<noteq> length without_duplicates
                      then (Inl DuplicateRows, heap2)
                      else (case normalise_signals e signals of
                              Inl err \<Rightarrow> (Inl err, heap2)
                            | Inr signals' \<Rightarrow>
                                (case load_readings e self
                                        (map2 (\<lambda>r t. \<lparr>ev_turbine_id = tt_turbine_id r,
                                                       ev_cutoff_time = t\<rparr>)
                                           (tt_rows X0) cutoff_time)
                                        signals' window_size of
                                   Inl err \<Rightarrow> (Inl err, heap2)
                                 | Inr readings \<Rightarrow>
                                     if return_target
                                     then (if tt_has_target X1
                                           then (Inr \<lparr>res_X = X,
                                                      res_y = Some (map tt_target (tt_rows X1)),
                                                      res_readings = readings\<rparr>,
                                                 heap2[X := X1\<lparr>tt_has_target := False\<rparr>])
                                           else (Inl (KeyError ''target''), heap2))
                                     else (Inr \<lparr>res_X = X, res_y = None,
                                                res_readings = readings\<rparr>,
                                           heap2))))))"

subsection \<open>Reference parsers and concrete inputs\<close>

text \<open>
  For concrete inputs the environment needs concrete parsers. These accept the ISO form
  \<^verbatim>\<open>YYYY-MM-DD HH:MM:SS\<close> for \<^verbatim>\<open>pd.to_datetime\<close>, the zero-padded form of the format
  \<^verbatim>\<open>%m/%d/%y %H:%M:%S\<close> (two-digit years below 69 are in 2000, as in \<^verbatim>\<open>strptime\<close>), and
  for \<^verbatim>\<open>pd.to_timedelta\<close> a signed whole number followed by one of the units
  \<^verbatim>\<open>d\<close>, \<^verbatim>\<open>h\<close>, \<^verbatim>\<open>m\<close>, \<^verbatim>\<open>s\<close>. Only the concrete theorems below use them.
\<close>

definition read_nat :: "string \<Rightarrow> int option" where
  "read_nat s =
     (if s \<noteq> [] \<and> list_all (\<lambda>c. CHR ''0'' \<le> c \<and> c \<le> CHR ''9'') s
      then Some (foldl (\<lambda>n c. 10 * n + (of_char c - 48)) 0 s)
      else None)"

definition civil :: "int \<Rightarrow> int \<Rightarrow> int \<Rightarrow> int \<Rightarrow> int \<Rightarrow> int \<Rightarrow> timestamp option" where
  "civil y m d hh mi ss =
     (if 1 \<le> y \<and> 1 \<le> m \<and> m \<le> 12 \<and> 1 \<le> d \<and> d \<le> days_in_month y m
         \<and> 0 \<le> hh \<and> hh < 24 \<and> 0 \<le> mi \<and> mi < 60 \<and> 0 \<le> ss \<and> ss < 60
      then Some (mk_timestamp y m d hh mi ss) else None)"

definition read_fields :: "string \<Rightarrow> (nat \<times> nat) list \<Rightarrow> int list option" where
  "read_fields s spans =
     (let fs = map (\<lambda>(i, n). read_nat (take n (drop i s))) spans
      in if list_all (\<lambda>f. f \<noteq> None) fs then Some (map the fs) else None)"

definition parse_iso :: "string \<Rightarrow> timestamp option" where
  "parse_iso s =
     (if length s = 19 \<and> map (\<lambda>i. s ! i) [4, 7, 10, 13, 16] = ''-- ::''
      then (case read_fields s [(0, 4), (5, 2), (8, 2), (11, 2), (14, 2), (17, 2)] of
              Some [y, m, d, hh, mi, ss] \<Rightarrow> civil y m d hh mi ss
            | _ \<Rightarrow> None)
      else None)"

definition parse_mdy :: "string \<Rightarrow> timestamp option" where
  "parse_mdy s =
     (if length s = 17 \<and> map (\<lambda>i. s ! i) [2, 5, 8, 11, 14] = ''// ::''
      then (case read_fields s [(0, 2), (3, 2), (6, 2), (9, 2), (12, 2), (15, 2)] of
              Some [m, d, yy, hh, mi, ss] \<Rightarrow>
                civil (if yy < 69 then 2000 + yy else 1900 + yy) m d hh mi ss
            | _ \<Rightarrow> None)
      else None)"

definition parse_timedelta :: "string \<Rightarrow> int option" where
  "parse_timedelta s =
     (let negative = (s \<noteq> [] \<and> hd s = CHR ''-'');
          body = (if negative then tl s else s)
      in if body = [] then None
         else (case (read_nat (butlast body),
                     map_of [(CHR ''d'', 86400), (CHR ''h'', 3600), (CHR ''m'', 60), (CHR ''s'', 1::int)]
                       (last body)) of
                 (Some n, Some unit) \<Rightarrow> Some (if negative then - (n * unit) else n * unit)
               | _ \<Rightarrow> None))"

text \<open>
  An environment from the content of the directories (the names in each directory and
  the rows of each log file), with the reference parsers.
\<close>

definition reference_env ::
    "(string \<times> string list) list \<Rightarrow> (string \<times> raw_reading frame) list \<Rightarrow> env" where
  "reference_env dirs files =
     \<lparr>listdir = map_of dirs,
      read_readings_csv = map_of files,
      read_target_times_csv = (\<lambda>p. None),
      read_signals_csv = (\<lambda>p. None),
      to_datetime = parse_iso,
      to_datetime_format = parse_mdy,
      to_timedelta = parse_timedelta\<rparr>"

text \<open>
  The scenario of the specification: one target event (turbine T1, cutoff 2020-02-15),
  a lookback of 30 days, and one log file in the directory of T1 with a row of
  2020-02-10 and a row of 2020-01-01. The name of the file is a parameter.
\<close>

definition scenario_rows :: "raw_reading list" where
  "scenario_rows =
     [\<lparr>raw_timestamp = ''02/10/20 00:00:00'', raw_signal_id = ''S1'', raw_value = ''3.2''\<rparr>,
      \<lparr>raw_timestamp = ''01/01/20 00:00:00'', raw_signal_id = ''S1'', raw_value = ''9.9''\<rparr>]"

definition scenario_file :: "raw_reading frame" where
  "scenario_file = \<lparr>columns = [''timestamp'', ''signal'', ''value''], rows = scenario_rows\<rparr>"

definition scenario_env :: "string \<Rightarrow> env" where
  "scenario_env name =
     reference_env [(''readings/T1'', [name])] [(''readings/T1/'' @ name, scenario_file)]"

definition scenario_loader :: GreenGuardRawLoader where
  "scenario_loader = \<lparr>readings_path = ''readings''\<rparr>"

definition scenario_target_times :: target_times where
  "scenario_target_times =
     \<lparr>tt_rows = [\<lparr>tt_turbine_id = ''T1'', tt_cutoff_time = Text ''2020-02-15 00:00:00'',
                  tt_target = ''1''\<rparr>],
      tt_has_target = True\<rparr>"

text \<open>Windows and frames for the concrete theorems.\<close>

definition scenario_events :: "target_event list" where
  "scenario_events = [\<lparr>ev_turbine_id = ''T1'', ev_cutoff_time = mk_timestamp 2020 2 15 0 0 0\<rparr>]"

definition scenario_frame :: "raw_reading frame" where
  "scenario_frame = \<lparr>columns = [''timestamp'', ''signal_id'', ''value''], rows = scenario_rows\<rparr>"

definition scenario_window :: window where
  "scenario_window = \<lparr>win_turbine_id = ''T1'', win_start = mk_timestamp 2020 1 16 0 0 0,
                        win_end = mk_timestamp 2020 2 15 0 0 0\<rparr>"


definition overlapping_windows :: "window list" where
  "overlapping_windows =
     [\<lparr>win_turbine_id = ''T1'', win_start = mk_timestamp 2020 1 16 0 0 0,
       win_end = mk_timestamp 2020 2 15 0 0 0\<rparr>,
      \<lparr>win_turbine_id = ''T1'', win_start = mk_timestamp 2020 2 1 0 0 0,
       win_end = mk_timestamp 2020 3 1 0 0 0\<rparr>]"

definition endpoint_window :: "window list" where
  "endpoint_window =
     [\<lparr>win_turbine_id = ''T1'', win_start = mk_timestamp 2020 1 1 0 0 0,
       win_end = mk_timestamp 2020 2 10 0 0 0\<rparr>]"


definition duplicate_target_times :: target_times where
  "duplicate_target_times =
     \<lparr>tt_rows = [\<lparr>tt_turbine_id = ''T1'', tt_cutoff_time = Text ''2020-02-15 00:00:00'',
                  tt_target = ''1''\<rparr>,
                \<lparr>tt_turbine_id = ''T2'', tt_cutoff_time = Text ''2020-02-15 00:00:00'',
                  tt_target = ''0''\<rparr>,
                \<lparr>tt_turbine_id = ''T1'', tt_cutoff_time = Stamp (mk_timestamp 2020 2 15 0 0 0),
                  tt_target = ''0''\<rparr>],
      tt_has_target = True\<rparr>"

definition duplicate_target_times_reordered :: target_times where
  "duplicate_target_times_reordered =
     \<lparr>tt_rows = [\<lparr>tt_turbine_id = ''T1'', tt_cutoff_time = Stamp (mk_timestamp 2020 2 15 0 0 0),
                  tt_target = ''0''\<rparr>,
                \<lparr>tt_turbine_id = ''T1'', tt_cutoff_time = Text ''2020-02-15 00:00:00'',
                  tt_target = ''1''\<rparr>,
                \<lparr>tt_turbine_id = ''T2'', tt_cutoff_time = Text ''2020-02-15 00:00:00'',
                  tt_target = ''0''\<rparr>],
      tt_has_target = True\<rparr>"

definition two_turbine_env :: env where
  "two_turbine_env =
     reference_env
       [(''readings/T1'', [''2020-02-.csv'']), (''readings/T2'', [''2020-02-.csv''])]
       [(''readings/T1/2020-02-.csv'', scenario_file),
        (''readings/T2/2020-02-.csv'',
         \<lparr>columns = [''Unnamed: 0'', ''Timestamp'', ''Signal'', ''Value''],
          rows = [\<lparr>raw_timestamp = ''02/10/20 00:00:00'', raw_signal_id = ''S2'',
                   raw_value = ''7.5''\<rparr>]\<rparr>)]"

definition two_turbine_target_times :: target_times where
  "two_turbine_target_times =
     \<lparr>tt_rows = [\<lparr>tt_turbine_id = ''T2'', tt_cutoff_time = Text ''2020-02-15 00:00:00'',
                  tt_target = ''0''\<rparr>,
                \<lparr>tt_turbine_id = ''T1'', tt_cutoff_time = Text ''2020-02-15 00:00:00'',
                  tt_target = ''1''\<rparr>],
      tt_has_target = True\<rparr>"

definition two_turbine_readings :: "tagged_reading frame" where
  "two_turbine_readings =
     \<lparr>columns = [''timestamp'', ''signal_id'', ''value'', ''turbine_id''],
      rows = [\<lparr>rd_timestamp = mk_timestamp 2020 2 10 0 0 0, rd_signal_id = ''S1'',
               rd_value = ''3.2'', rd_turbine_id = ''T1''\<rparr>,
              \<lparr>rd_timestamp = mk_timestamp 2020 2 10 0 0 0, rd_signal_id = ''S2'',
               rd_value = ''7.5'', rd_turbine_id = ''T2''\<rparr>]\<rparr>"

subsection \<open>Notions used in the statements\<close>

text \<open>The year of a day number, as \<open>year_month\<close> computes it.\<close>

definition year_of_day :: "int \<Rightarrow> int" where
  "year_of_day n = find_year n (n div 365 + 1)"

text \<open>The decimal digits of a number, zero-padded to a width.\<close>

fun zero_pad :: "nat \<Rightarrow> int \<Rightarrow> string" where
  "zero_pad 0 n = []"
| "zero_pad (Suc k) n = zero_pad k (n div 10) @ [digit n]"

text \<open>
  A row of a log file with its timestamp parsed, and the test whether an instant lies in
  one of the windows, both ends included.
\<close>

definition parsed :: "env \<Rightarrow> raw_reading \<Rightarrow> reading" where
  "parsed e r = \<lparr>rd_timestamp = the (to_datetime_format e (raw_timestamp r)),
                 rd_signal_id = raw_signal_id r, rd_value = raw_value r\<rparr>"

definition in_some_window :: "window list \<Rightarrow> timestamp \<Rightarrow> bool" where
  "in_some_window X t \<longleftrightarrow> (\<exists>row \<in> set X. win_start row \<le> t \<and> t \<le> win_end row)"

text \<open>
  A table of windows whose start column holds pandas timestamps, as \<^verbatim>\<open>_get_times\<close>
  builds it when a lookback is given.
\<close>

definition lookback_table :: "window list \<Rightarrow> window_table" where
  "lookback_table X = \<lparr>start_dtype = Datetime64, win_rows = X\<rparr>"

text \<open>
  The window of a target event as the specification words it: it ends at the cutoff and
  starts the lookback before it, or at the least instant when no lookback is given.
\<close>

definition event_window :: "int option \<Rightarrow> target_event \<Rightarrow> window" where
  "event_window lookback ev =
     \<lparr>win_turbine_id = ev_turbine_id ev,
      win_start = (case lookback of None \<Rightarrow> datetime_min | Some d \<Rightarrow> ev_cutoff_time ev - d),
      win_end = ev_cutoff_time ev\<rparr>"

text \<open>
  The lookback a call is given: none when \<^verbatim>\<open>window_size\<close> is \<^verbatim>\<open>None\<close> or empty
  (line 220), else the duration \<^verbatim>\<open>pd.to_timedelta\<close> reads from it. The result is
  \<open>None\<close> when the text is rejected.
\<close>

definition lookback_given :: "env \<Rightarrow> string option \<Rightarrow> int option option" where
  "lookback_given e window_size =
     (case window_size of
        None \<Rightarrow> Some None
      | Some w \<Rightarrow>
          if w = [] then Some None
          else (case to_timedelta e w of None \<Rightarrow> None | Some d \<Rightarrow> Some (Some d)))"

text \<open>
  The pair the duplicate check compares, read off a row of the caller's table: the entity
  and the instant its cutoff cell parses to.
\<close>

definition entity_cutoff :: "env \<Rightarrow> target_row \<Rightarrow> string \<times> timestamp option" where
  "entity_cutoff e r = (tt_turbine_id r, to_datetime_cell e (tt_cutoff_time r))"

text \<open>
  The table of target events a call works on (line 274 or 276), and the turbines it
  names.
\<close>

definition target_table :: "env \<Rightarrow> target_times list \<Rightarrow> target_arg \<Rightarrow> target_times option" where
  "target_table e heap target_times =
     (case target_times of
        DataFrame a \<Rightarrow> Some (heap ! a)
      | CsvPath p \<Rightarrow> read_target_times_csv e p)"

text \<open>
  A log file that the loop of lines 201 to 207 gets through: it can be read, its columns
  have names that differ from each other, among them the names the loop looks up, and the
  timestamps of its rows are of the format of line 178. A turbine is readable when its
  directory can be listed and holds such files only.
\<close>

definition readable_file :: "env \<Rightarrow> string list option \<Rightarrow> string \<Rightarrow> bool" where
  "readable_file e signals turbine_file =
     (case load_readings_file e turbine_file of
        Inl err \<Rightarrow> False
      | Inr data \<Rightarrow>
          distinct (columns data)
          \<and> ''timestamp'' \<in> set (columns data)
          \<and> (signals = None \<or> ''signal_id'' \<in> set (columns data))
          \<and> list_all (\<lambda>r. to_datetime_format e (raw_timestamp r) \<noteq> None) (rows data))"

definition readable_turbine ::
    "env \<Rightarrow> GreenGuardRawLoader \<Rightarrow> string list option \<Rightarrow> string \<Rightarrow> bool" where
  "readable_turbine e self signals turbine_id =
     (case listdir e (path_join (readings_path self) turbine_id) of
        None \<Rightarrow> False
      | Some names \<Rightarrow>
          list_all (\<lambda>f. readable_file e signals
                          (path_join (path_join (readings_path self) turbine_id) f)) names)"

section \<open>Properties\<close>

subsection \<open>The calendar: year and month grow with the instant\<close>

lemma div_pred:
  fixes y k :: int
  assumes "0 < k"
  shows "y div k = (y - 1) div k + (if k dvd y then 1 else 0)"
proof -
  define q where "q = (y - 1) div k"
  define r where "r = (y - 1) mod k"
  have y: "y = k * q + (r + 1)"
    unfolding q_def r_def by simp
  have r: "0 \<le> r" "r < k"
    using assms by (simp_all add: r_def)
  show ?thesis
  proof (cases "r + 1 = k")
    case True
    have "y = k * q + k"
      by (subst y) (simp only: True)
    also have "\<dots> = k * (q + 1)"
      by (simp only: distrib_left mult_1_right)
    finally have yk: "y = k * (q + 1)" .
    have "k \<noteq> 0"
      using assms by simp
    then have "(k * (q + 1)) div k = q + 1"
      by (rule nonzero_mult_div_cancel_left)
    moreover have "k dvd k * (q + 1)"
      by (rule dvd_triv_left)
    ultimately have "k dvd y" "y div k = q + 1"
      unfolding yk by blast+
    then show ?thesis
      by (simp add: q_def)
  next
    case False
    with r have r1: "0 \<le> r + 1" "r + 1 < k" by simp_all
    have "y div k = q" "y mod k = r + 1"
      using int_div_pos_eq [OF y r1] int_mod_pos_eq [OF y r1] by blast+
    moreover from this r have "\<not> k dvd y"
      by (simp add: dvd_eq_mod_eq_0)
    ultimately show ?thesis
      by (simp add: q_def)
  qed
qed

lemma days_before_year_step: "days_before_year y + 365 \<le> days_before_year (y + 1)"
proof -
  have c: "(y - 1) div 400 \<le> y div 400"
    by (intro zdiv_mono1) auto
  have a: "y div 4 = (y - 1) div 4 + (if 4 dvd y then 1 else 0)"
    by (rule div_pred) simp
  have b: "y div 100 = (y - 1) div 100 + (if 100 dvd y then 1 else 0)"
    by (rule div_pred) simp
  have d: "(4::int) dvd y" if "100 dvd y"
    using that by (rule dvd_trans [rotated]) simp
  have "(y - 1) div 4 - (y - 1) div 100 \<le> y div 4 - y div 100"
  proof (cases "(100::int) dvd y")
    case True
    with d a b show ?thesis by simp
  next
    case False
    with a b show ?thesis by (simp split: if_splits)
  qed
  with c show ?thesis
    by (simp add: days_before_year_def Let_def)
qed

lemma days_before_year_gap:
  "y \<le> y' \<Longrightarrow> days_before_year y + 365 * (y' - y) \<le> days_before_year y'"
proof (induction y' rule: int_ge_induct)
  case base
  then show ?case by simp
next
  case (step i)
  from days_before_year_step [of i] step show ?case by (simp add: algebra_simps)
qed

lemma days_before_year_1: "days_before_year 1 = 0"
  by (simp add: days_before_year_def)

lemma find_year_spec:
  "1 \<le> y0 \<Longrightarrow>
   1 \<le> find_year n y0 \<and> find_year n y0 \<le> y0
   \<and> (find_year n y0 = 1 \<or> days_before_year (find_year n y0) \<le> n)
   \<and> (\<forall>z. find_year n y0 < z \<and> z \<le> y0 \<longrightarrow> n < days_before_year z)"
proof (induction n y0 rule: find_year.induct)
  case (1 n y)
  show ?case
  proof (cases "y \<le> 1 \<or> days_before_year y \<le> n")
    case True
    with "1.prems" show ?thesis by (subst (1 2 3 4 5) find_year.simps) auto
  next
    case False
    then have eq: "find_year n y = find_year n (y - 1)"
      by (subst find_year.simps) simp
    from False "1.prems" have "1 \<le> y - 1" by simp
    note IH = "1.IH" [OF False this]
    have "n < days_before_year z" if "find_year n (y - 1) < z" "z \<le> y" for z
    proof (cases "z = y")
      case True
      with False show ?thesis by simp
    next
      case False
      with that have "z \<le> y - 1" by simp
      with that IH show ?thesis by blast
    qed
    with IH show ?thesis
      unfolding eq by auto
  qed
qed

lemma year_of_day_bounds:
  assumes "0 \<le> n"
  shows "1 \<le> year_of_day n"
    and "days_before_year (year_of_day n) \<le> n"
    and "n < days_before_year (year_of_day n + 1)"
proof -
  let ?g = "n div 365 + 1"
  let ?y = "find_year n ?g"
  have y0: "1 \<le> ?g"
    using assms by (simp add: pos_imp_zdiv_nonneg_iff)
  note spec = find_year_spec [OF y0, of n]
  show "1 \<le> year_of_day n"
    using spec by (simp add: year_of_day_def)
  show "days_before_year (year_of_day n) \<le> n"
    using spec assms by (auto simp: year_of_day_def days_before_year_1)
  show "n < days_before_year (year_of_day n + 1)"
  proof (cases "?y < ?g")
    case True
    then have "?y < ?y + 1 \<and> ?y + 1 \<le> ?g" by simp
    with spec show ?thesis
      unfolding year_of_day_def by blast
  next
    case False
    with spec have eq: "?y = ?g" by simp
    have "n < 365 * (n div 365) + 365"
      using pos_mod_bound [of 365 n] mult_div_mod_eq [of 365 n]
      by linarith
    also have "\<dots> = days_before_year 1 + 365 * (?g + 1 - 1)"
      by (simp add: days_before_year_1)
    also have "\<dots> \<le> days_before_year (?g + 1)"
      using y0 by (intro days_before_year_gap) simp
    finally show ?thesis
      unfolding year_of_day_def eq .
  qed
qed

lemma days_before_year_mono: "y \<le> y' \<Longrightarrow> days_before_year y \<le> days_before_year y'"
  using days_before_year_gap [of y y'] mult_nonneg_nonneg [of 365 "y' - y"] by simp

lemma year_of_day_mono:
  assumes "0 \<le> n1" "n1 \<le> n2"
  shows "year_of_day n1 \<le> year_of_day n2"
proof (rule ccontr)
  assume "\<not> year_of_day n1 \<le> year_of_day n2"
  then have "year_of_day n2 + 1 \<le> year_of_day n1" by simp
  then have "days_before_year (year_of_day n2 + 1) \<le> days_before_year (year_of_day n1)"
    by (rule days_before_year_mono)
  also have "\<dots> \<le> n1"
    using assms by (intro year_of_day_bounds) simp
  also note \<open>n1 \<le> n2\<close>
  also have "n2 < days_before_year (year_of_day n2 + 1)"
    using assms by (intro year_of_day_bounds) simp
  finally show False by simp
qed

lemma find_month_ge: "m \<le> 12 \<Longrightarrow> m \<le> find_month y m r \<and> find_month y m r \<le> 12"
proof (induction y m r rule: find_month.induct)
  case (1 y m r)
  show ?case
  proof (cases "12 \<le> m \<or> r < days_in_month y m")
    case True
    with "1.prems" show ?thesis by (subst (1 2) find_month.simps) simp
  next
    case False
    then have eq: "find_month y m r = find_month y (m + 1) (r - days_in_month y m)"
      by (subst find_month.simps) simp
    from False have "m + 1 \<le> 12" by simp
    from "1.IH" [OF False this] show ?thesis
      unfolding eq by simp
  qed
qed

lemma find_month_mono:
  "r1 \<le> r2 \<Longrightarrow> m \<le> 12 \<Longrightarrow> find_month y m r1 \<le> find_month y m r2"
proof (induction y m r1 arbitrary: r2 rule: find_month.induct)
  case (1 y m r1)
  show ?case
  proof (cases "12 \<le> m \<or> r1 < days_in_month y m")
    case True
    then have "find_month y m r1 = m"
      by (subst find_month.simps) simp
    with find_month_ge [OF "1.prems"(2), of y r2] show ?thesis by simp
  next
    case False
    then have eq1: "find_month y m r1 = find_month y (m + 1) (r1 - days_in_month y m)"
      by (subst find_month.simps) simp
    from False "1.prems" have "\<not> (12 \<le> m \<or> r2 < days_in_month y m)" by auto
    then have eq2: "find_month y m r2 = find_month y (m + 1) (r2 - days_in_month y m)"
      by (subst find_month.simps) simp
    from False have "m + 1 \<le> 12" by simp
    from "1.IH" [OF False _ this, of "r2 - days_in_month y m"] "1.prems" show ?thesis
      unfolding eq1 eq2 by simp
  qed
qed

lemma year_month_mono:
  assumes "t1 \<le> t2"
  shows "fst (year_month t1) < fst (year_month t2)
         \<or> fst (year_month t1) = fst (year_month t2) \<and> snd (year_month t1) \<le> snd (year_month t2)"
proof -
  define n1 where "n1 = max 0 (t1 div 86400)"
  define n2 where "n2 = max 0 (t2 div 86400)"
  have n: "0 \<le> n1" "n1 \<le> n2"
    using assms zdiv_mono1 [of t1 t2 86400] by (auto simp: n1_def n2_def)
  have ym1: "year_month t1 = (year_of_day n1, find_month (year_of_day n1) 1 (n1 - days_before_year (year_of_day n1)))"
    by (simp add: year_month_def Let_def n1_def year_of_day_def)
  have ym2: "year_month t2 = (year_of_day n2, find_month (year_of_day n2) 1 (n2 - days_before_year (year_of_day n2)))"
    by (simp add: year_month_def Let_def n2_def year_of_day_def)
  from year_of_day_mono [OF n] show ?thesis
    unfolding ym1 ym2 using n by (auto intro!: find_month_mono)
qed

lemma year_month_range:
  "1 \<le> fst (year_month t)" "1 \<le> snd (year_month t)" "snd (year_month t) \<le> 12"
  using year_of_day_bounds(1) [of "max 0 (t div 86400)"]
    find_month_ge [of 1 "fst (year_month t)" "max 0 (t div 86400) - days_before_year (fst (year_month t))"]
  by (simp_all add: year_month_def Let_def year_of_day_def)

subsection \<open>\<^verbatim>\<open>strftime('%Y-%m-.csv')\<close> grows with the instant\<close>

lemma digit_less_iff: "digit a < digit b \<longleftrightarrow> a mod 10 < b mod 10"
proof -
  have "nat (48 + d mod 10) < 256" for d :: int
    using pos_mod_bound [of 10 d] by simp
  then have "of_char (digit d) = nat (48 + d mod 10)" for d
    by (simp add: digit_def)
  moreover have "0 \<le> a mod 10" "0 \<le> b mod 10"
    by simp_all
  ultimately show ?thesis
    unfolding less_char_def by (simp only:) linarith
qed

lemma length_zero_pad [simp]: "length (zero_pad k n) = k"
  by (induction k arbitrary: n) auto

lemma div10_split:
  fixes a b :: int
  assumes "a < b"
  shows "a div 10 < b div 10 \<or> a div 10 = b div 10 \<and> a mod 10 < b mod 10"
proof -
  have "a div 10 \<le> b div 10"
    using assms by (intro zdiv_mono1) auto
  moreover have "a mod 10 < b mod 10" if "a div 10 = b div 10"
    using that assms mult_div_mod_eq [of 10 a] mult_div_mod_eq [of 10 b] by linarith
  ultimately show ?thesis by linarith
qed

lemma append_less_same_length:
  fixes xs ys :: "'a::linorder list"
  assumes "xs < ys" "length xs = length ys"
  shows "xs @ u < ys @ v"
  using assms unfolding list_less_def by (intro lexord_sufI) auto

lemma append_less_same_prefix:
  fixes u v :: "'a::linorder list"
  shows "u < v \<Longrightarrow> xs @ u < xs @ v"
  unfolding list_less_def by (rule lexord_append_leftI)

lemma zero_pad_less:
  "0 \<le> a \<Longrightarrow> a < b \<Longrightarrow> b < 10 ^ k \<Longrightarrow> zero_pad k a < zero_pad k b"
proof (induction k arbitrary: a b)
  case 0
  then show ?case by simp
next
  case (Suc k)
  from div10_split [OF \<open>a < b\<close>] show ?case
  proof
    assume lt: "a div 10 < b div 10"
    have "0 \<le> a div 10"
      using Suc.prems by (simp add: pos_imp_zdiv_nonneg_iff)
    moreover have "b div 10 < 10 ^ k"
      using Suc.prems mult_div_mod_eq [of 10 b] pos_mod_sign [of 10 b] by simp
    ultimately have "zero_pad k (a div 10) < zero_pad k (b div 10)"
      using lt by (intro Suc.IH)
    then show ?thesis
      by (simp add: append_less_same_length)
  next
    assume "a div 10 = b div 10 \<and> a mod 10 < b mod 10"
    then show ?thesis
      by (simp add: append_less_same_prefix digit_less_iff)
  qed
qed

lemma zero_pad4_eq: "zero_pad4 n = zero_pad 4 n"
proof -
  have "n div 10 div 10 = n div 100" "n div 10 div 10 div 10 = n div 1000"
    by (simp_all add: zdiv_zmult2_eq [symmetric])
  then show ?thesis
    by (simp add: zero_pad4_def numeral_eq_Suc)
qed

lemma zero_pad2_eq: "zero_pad2 n = zero_pad 2 n"
  by (simp add: zero_pad2_def numeral_eq_Suc)

lemma strftime_csv_mono:
  assumes "t1 \<le> t2" "fst (year_month t2) \<le> 9999"
  shows "strftime_csv t1 \<le> strftime_csv t2"
proof -
  obtain y1 m1 where ym1: "year_month t1 = (y1, m1)" by force
  obtain y2 m2 where ym2: "year_month t2 = (y2, m2)" by force
  have range: "1 \<le> y1" "1 \<le> m1" "m2 \<le> 12" "y2 \<le> 9999"
    using year_month_range [of t1] year_month_range [of t2] assms(2) by (simp_all add: ym1 ym2)
  from year_month_mono [OF assms(1)] have "y1 < y2 \<or> y1 = y2 \<and> m1 \<le> m2"
    by (simp add: ym1 ym2)
  then consider "y1 < y2" | "y1 = y2" "m1 < m2" | "y1 = y2" "m1 = m2"
    by linarith
  then have "zero_pad 4 y1 @ ''-'' @ zero_pad 2 m1 @ ''-.csv''
             \<le> zero_pad 4 y2 @ ''-'' @ zero_pad 2 m2 @ ''-.csv''"
  proof cases
    case 1
    with range have "zero_pad 4 y1 < zero_pad 4 y2"
      by (intro zero_pad_less) simp_all
    then show ?thesis
      by (intro less_imp_le append_less_same_length) simp_all
  next
    case 2
    with range have "zero_pad 2 m1 < zero_pad 2 m2"
      by (intro zero_pad_less) simp_all
    then have "zero_pad 2 m1 @ ''-.csv'' < zero_pad 2 m2 @ ''-.csv''"
      by (intro append_less_same_length) simp_all
    then have "''-'' @ zero_pad 2 m1 @ ''-.csv'' < ''-'' @ zero_pad 2 m2 @ ''-.csv''"
      by (rule append_less_same_prefix)
    then have "zero_pad 4 y2 @ ''-'' @ zero_pad 2 m1 @ ''-.csv''
               < zero_pad 4 y2 @ ''-'' @ zero_pad 2 m2 @ ''-.csv''"
      by (rule append_less_same_prefix)
    then show ?thesis
      unfolding \<open>y1 = y2\<close> by (rule less_imp_le)
  next
    case 3
    then show ?thesis by simp
  qed
  then show ?thesis
    by (simp add: strftime_csv_def ym1 ym2 zero_pad4_eq zero_pad2_eq)
qed

subsection \<open>The filters\<close>

lemma filter_by_filename_iff:
  assumes "start_dtype X = Datetime64"
  shows "filter_by_filename X filenames =
           Inr (filter (\<lambda>filename. \<exists>row \<in> set (win_rows X).
                                      strftime_csv (win_start row) \<le> filename
                                      \<and> filename \<le> strftime_csv (win_end row)) filenames)"
proof -
  have "list_ex (\<lambda>(lo, hi). lo \<le> f \<and> f \<le> hi)
          (zip (map (\<lambda>row. strftime_csv (win_start row)) W) (map (\<lambda>row. strftime_csv (win_end row)) W))
        \<longleftrightarrow> (\<exists>row \<in> set W. strftime_csv (win_start row) \<le> f \<and> f \<le> strftime_csv (win_end row))"
    for f and W :: "window list"
    by (induction W) auto
  with assms show ?thesis
    by (simp add: filter_by_filename_def)
qed

lemma filter_by_filename_object:
  "start_dtype X = Object \<Longrightarrow> filter_by_filename X filenames = Inl AttributeError"
  by (simp add: filter_by_filename_def)

lemma filter_by_filename_subset:
  "filter_by_filename X filenames = Inr selected \<Longrightarrow> set selected \<subseteq> set filenames"
  by (auto simp: filter_by_filename_def Let_def split: if_splits)

lemma parse_column_total:
  "\<forall>c \<in> set cs. p c \<noteq> None \<Longrightarrow> parse_column p shw cs = Inr (map (\<lambda>c. the (p c)) cs)"
  by (induction cs) auto

lemma related_foldl:
  "length init = length ts \<Longrightarrow>
   foldl (\<lambda>related row. map2 (\<or>) related (map (f row) ts)) init X
     = map2 (\<lambda>b t. b \<or> (\<exists>row \<in> set X. f row t)) init ts"
proof (induction X arbitrary: init)
  case Nil
  then have "map2 (\<lambda>x y. x) init ts = init"
    by (induction init ts rule: list_induct2) auto
  then show ?case by simp
next
  case (Cons row X)
  have "map2 (\<lambda>b t. b \<or> (\<exists>row\<in>set X. f row t)) (map2 (\<or>) init (map (f row) ts)) ts
        = map2 (\<lambda>b t. b \<or> (\<exists>r\<in>set (row # X). f r t)) init ts"
    using Cons.prems by (induction init ts rule: list_induct2) auto
  with Cons show ?case by simp
qed

lemma mask_select:
  "map fst (filter snd (zip (map g xs) (map P xs))) = map g (filter P xs)"
  by (induction xs) auto

lemma filter_by_timestamp_eq:
  assumes "\<forall>r \<in> set (rows data). to_datetime_format e (raw_timestamp r) \<noteq> None"
  shows "filter_by_timestamp e data X =
           Inr \<lparr>columns = columns data,
                rows = map (parsed e)
                         (filter (\<lambda>r. in_some_window X (rd_timestamp (parsed e r))) (rows data))\<rparr>"
proof -
  let ?p = "to_datetime_format e"
  let ?ts = "map (\<lambda>c. the (?p c)) (map raw_timestamp (rows data))"
  have pc: "parse_column ?p id (map raw_timestamp (rows data)) = Inr ?ts"
    using assms by (intro parse_column_total) auto
  have d: "map2 (\<lambda>r t. \<lparr>rd_timestamp = t, rd_signal_id = raw_signal_id r, rd_value = raw_value r\<rparr>)
             (rows data) ?ts = map (parsed e) (rows data)"
    by (induction "rows data") (auto simp: parsed_def zip_map2 map_zip_map2 zip_same_conv_map)
  have rel: "foldl (\<lambda>related row. map2 (\<or>) related
                      (map (\<lambda>t. win_start row \<le> t \<and> t \<le> win_end row) ?ts))
               (replicate (length ?ts) False) X
             = map (\<lambda>r. in_some_window X (rd_timestamp (parsed e r))) (rows data)"
    by (subst related_foldl)
       (auto simp: in_some_window_def parsed_def zip_replicate1 map_zip_map2 zip_same_conv_map
             intro!: nth_equalityI)
  show ?thesis
    unfolding filter_by_timestamp_def pc sum.case Let_def d rel mask_select ..
qed


subsection \<open>Errors of the stages after the duplicate check\<close>

lemma parse_column_error: "parse_column p shw cs = Inl err \<Longrightarrow> err \<noteq> DuplicateRows"
  by (induction cs) (auto split: option.splits sum.splits)

lemma filter_by_timestamp_error: "filter_by_timestamp e data X = Inl err \<Longrightarrow> err \<noteq> DuplicateRows"
  by (auto simp: filter_by_timestamp_def Let_def split: sum.splits dest: parse_column_error)

lemma load_readings_file_error: "load_readings_file e f = Inl err \<Longrightarrow> err \<noteq> DuplicateRows"
  by (auto simp: load_readings_file_def Let_def split: option.splits)

lemma filter_by_signal_error: "filter_by_signal data signals = Inl err \<Longrightarrow> err \<noteq> DuplicateRows"
  by (auto simp: filter_by_signal_def split: option.splits if_splits)

lemma filter_by_filename_error: "filter_by_filename X filenames = Inl err \<Longrightarrow> err \<noteq> DuplicateRows"
  by (auto simp: filter_by_filename_def Let_def split: if_splits)

lemma load_files_error:
  "load_files e turbine_path X signals filenames = Inl err \<Longrightarrow> err \<noteq> DuplicateRows"
  by (induction filenames arbitrary: err)
     (auto split: sum.splits if_splits
           dest: load_readings_file_error filter_by_signal_error filter_by_timestamp_error)

lemma pd_concat_error: "pd_concat fs = Inl err \<Longrightarrow> err \<noteq> DuplicateRows"
  by (auto simp: pd_concat_def split: if_splits)

lemma load_turbine_readings_error:
  "load_turbine_readings e self X signals = Inl err \<Longrightarrow> err \<noteq> DuplicateRows"
  by (auto simp: load_turbine_readings_def Let_def
           split: list.splits option.splits sum.splits if_splits
           dest: load_files_error pd_concat_error filter_by_filename_error)

lemma load_turbine_error:
  "load_turbine e self X signals turbine_id = Inl err \<Longrightarrow> err \<noteq> DuplicateRows"
  by (auto simp: load_turbine_def Let_def split: sum.splits dest: load_turbine_readings_error)

lemma load_turbines_error:
  "load_turbines e self X signals turbine_ids = Inl err \<Longrightarrow> err \<noteq> DuplicateRows"
  by (induction turbine_ids arbitrary: err) (auto split: sum.splits dest: load_turbine_error)

lemma get_times_error: "get_times e X window_size = Inl err \<Longrightarrow> err \<noteq> DuplicateRows"
  by (auto simp: get_times_def Let_def split: option.splits if_splits sum.splits)

lemma load_readings_error:
  "load_readings e self X signals window_size = Inl err \<Longrightarrow> err \<noteq> DuplicateRows"
  by (auto simp: load_readings_def Let_def split: sum.splits
           dest: get_times_error load_turbines_error pd_concat_error)

lemma normalise_signals_error: "normalise_signals e signals = Inl err \<Longrightarrow> err \<noteq> DuplicateRows"
  by (auto simp: normalise_signals_def split: signals_arg.splits option.splits)

subsection \<open>The duplicate check and the store\<close>

lemma fold_keep_first:
  "distinct (map key kept) \<Longrightarrow>
   (length (fold (\<lambda>x kept. if key x \<in> key ` set kept then kept else x # kept) xs kept)
      = length kept + length xs
    \<longleftrightarrow> distinct (map key xs) \<and> key ` set xs \<inter> key ` set kept = {})
   \<and> length (fold (\<lambda>x kept. if key x \<in> key ` set kept then kept else x # kept) xs kept)
      \<le> length kept + length xs
   \<and> distinct (map key (fold (\<lambda>x kept. if key x \<in> key ` set kept then kept else x # kept) xs kept))"
proof (induction xs arbitrary: kept)
  case Nil
  then show ?case by simp
next
  case (Cons x xs)
  show ?case
  proof (cases "key x \<in> key ` set kept")
    case True
    with Cons.IH [OF Cons.prems] show ?thesis by auto
  next
    case False
    with Cons.prems have "distinct (map key (x # kept))" by simp
    from Cons.IH [OF this] False show ?thesis by auto
  qed
qed

lemma length_drop_duplicates:
  "length (drop_duplicates key xs) = length xs \<longleftrightarrow> distinct (map key xs)"
  using fold_keep_first [of key "[]" xs] by (simp add: drop_duplicates_def)

lemma load_heap_prefix:
  "take (length heap) (snd (load e self heap target_times signals window_size return_target)) = heap"
  by (simp add: load_def Let_def split: target_arg.split option.split sum.split)

lemma parsed_keys_distinct:
  assumes "\<forall>r \<in> set rs. to_datetime_cell e (tt_cutoff_time r) \<noteq> None"
  shows "distinct (map (\<lambda>r. (tt_cutoff_time r, tt_turbine_id r))
                     (map2 (\<lambda>r t. r\<lparr>tt_cutoff_time := Stamp t\<rparr>) rs
                        (map (\<lambda>c. the (to_datetime_cell e c)) (map tt_cutoff_time rs))))
         \<longleftrightarrow> distinct (map (entity_cutoff e) rs)"
proof -
  let ?g = "\<lambda>(i, c). (Stamp (the c), i :: string)"
  have "map (\<lambda>r. (tt_cutoff_time r, tt_turbine_id r))
          (map2 (\<lambda>r t. r\<lparr>tt_cutoff_time := Stamp t\<rparr>) rs
             (map (\<lambda>c. the (to_datetime_cell e c)) (map tt_cutoff_time rs)))
        = map ?g (map (entity_cutoff e) rs)"
    by (induction rs) (auto simp: entity_cutoff_def)
  moreover have "inj_on ?g (set (map (entity_cutoff e) rs))"
  proof (rule inj_onI)
    fix p q
    assume p: "p \<in> set (map (entity_cutoff e) rs)" and q: "q \<in> set (map (entity_cutoff e) rs)"
      and eq: "?g p = ?g q"
    from p assms obtain i t where p': "p = (i, Some t)"
      by (auto simp: entity_cutoff_def)
    from q assms obtain j u where q': "q = (j, Some u)"
      by (auto simp: entity_cutoff_def)
    from eq show "p = q"
      by (simp add: p' q')
  qed
  ultimately show ?thesis
    by (simp only: distinct_map) simp
qed

lemma load_duplicates_iff:
  assumes "\<forall>r \<in> set (tt_rows (heap ! a)). to_datetime_cell e (tt_cutoff_time r) \<noteq> None"
  shows "fst (load e self heap (DataFrame a) signals window_size return_target) = Inl DuplicateRows
         \<longleftrightarrow> \<not> distinct (map (entity_cutoff e) (tt_rows (heap ! a)))"
proof -
  let ?rs = "tt_rows (heap ! a)"
  let ?ts = "map (\<lambda>c. the (to_datetime_cell e c)) (map tt_cutoff_time ?rs)"
  let ?X1 = "map2 (\<lambda>r t. r\<lparr>tt_cutoff_time := Stamp t\<rparr>) ?rs ?ts"
  have pc: "parse_column (to_datetime_cell e) show_cell (map tt_cutoff_time ?rs) = Inr ?ts"
    using assms by (intro parse_column_total) auto
  have len: "length ?X1 = length ?rs"
    by simp
  have dd: "length (drop_duplicates (\<lambda>r. (tt_cutoff_time r, tt_turbine_id r)) ?X1) = length ?X1
            \<longleftrightarrow> distinct (map (entity_cutoff e) ?rs)"
    unfolding length_drop_duplicates using parsed_keys_distinct [OF assms] .
  show ?thesis
  proof (cases "distinct (map (entity_cutoff e) ?rs)")
    case False
    with dd show ?thesis
      by (simp add: load_def pc Let_def del: length_map length_zip)
  next
    case True
    with dd have "fst (load e self heap (DataFrame a) signals window_size return_target)
                  \<noteq> Inl DuplicateRows"
      by (auto simp add: load_def pc Let_def simp del: length_map length_zip
               split: sum.splits
               dest: normalise_signals_error load_readings_error)
    with True show ?thesis by simp
  qed
qed

subsection \<open>Tables without rows\<close>







subsection \<open>Calls that return\<close>

lemma filter_by_signal_total:
  assumes "signals = None \<or> ''signal_id'' \<in> set (columns data)"
  shows "\<exists>selected. filter_by_signal data signals = Inr selected
           \<and> columns selected = columns data \<and> set (rows selected) \<subseteq> set (rows data)"
  using assms by (auto simp: filter_by_signal_def split: option.splits)

lemma load_files_total:
  assumes "\<forall>f \<in> set filenames. readable_file e signals (path_join turbine_path f)"
  shows "\<exists>frames. load_files e turbine_path X signals filenames = Inr frames
           \<and> length frames = length filenames"
  using assms
proof (induction filenames)
  case Nil
  then show ?case by simp
next
  case (Cons f filenames)
  from Cons.prems have "readable_file e signals (path_join turbine_path f)"
    by simp
  then obtain data where
    data: "load_readings_file e (path_join turbine_path f) = Inr data"
      "''timestamp'' \<in> set (columns data)"
      "signals = None \<or> ''signal_id'' \<in> set (columns data)"
      "\<forall>r \<in> set (rows data). to_datetime_format e (raw_timestamp r) \<noteq> None"
    by (auto simp: readable_file_def list_all_iff split: sum.splits)
  from filter_by_signal_total [OF data(3)] obtain selected where
    selected: "filter_by_signal data signals = Inr selected" "columns selected = columns data"
      "set (rows selected) \<subseteq> set (rows data)"
    by blast
  from selected(3) data(4)
  have "\<forall>r \<in> set (rows selected). to_datetime_format e (raw_timestamp r) \<noteq> None"
    by blast
  from filter_by_timestamp_eq [OF this, of X] obtain out where
    out: "filter_by_timestamp e selected X = Inr out"
    by blast
  from Cons.IH Cons.prems obtain frames where
    "load_files e turbine_path X signals filenames = Inr frames"
    "length frames = length filenames"
    by auto
  with data(1,2) selected(1,2) out show ?case
    by simp
qed

lemma load_turbine_readings_total:
  assumes "start_dtype X = Datetime64" and "win_rows X = row # rest"
    and "readable_turbine e self signals (win_turbine_id row)"
  shows "\<exists>out. load_turbine_readings e self X signals = Inr out"
proof -
  let ?path = "path_join (readings_path self) (win_turbine_id row)"
  from assms(3) obtain names where
    names: "listdir e ?path = Some names"
      "\<forall>f \<in> set names. readable_file e signals (path_join ?path f)"
    by (auto simp: readable_turbine_def list_all_iff split: option.splits)
  from filter_by_filename_iff [OF assms(1)] obtain selected where
    selected: "filter_by_filename X (sort names) = Inr selected"
    by blast
  from filter_by_filename_subset [OF selected] names(2)
  have "\<forall>f \<in> set selected. readable_file e signals (path_join ?path f)"
    by auto
  from load_files_total [OF this] obtain frames where
    frames: "load_files e ?path (win_rows X) signals selected = Inr frames"
    by blast
  have "\<exists>out. (if frames \<noteq> [] then pd_concat frames
               else Inr \<lparr>columns = [''timestamp'', ''signal_id'', ''value'', ''turbine_id''],
                         rows = []\<rparr>) = Inr out"
    by (simp add: pd_concat_def)
  with names(1) selected frames show ?thesis
    by (simp add: load_turbine_readings_def assms(2))
qed

lemma load_turbine_total:
  assumes "start_dtype X = Datetime64"
    and "\<exists>row \<in> set (win_rows X). win_turbine_id row = turbine_id"
    and "readable_turbine e self signals turbine_id"
  shows "\<exists>fr. load_turbine e self X signals turbine_id = Inr fr"
proof -
  let ?X = "X\<lparr>win_rows := filter (\<lambda>row. win_turbine_id row = turbine_id) (win_rows X)\<rparr>"
  from assms(2) obtain row rest where X: "win_rows ?X = row # rest"
    by (cases "win_rows ?X") (auto simp: filter_empty_conv)
  then have "row \<in> set (win_rows ?X)" by simp
  then have row: "win_turbine_id row = turbine_id" by simp
  have dt: "start_dtype ?X = Datetime64"
    using assms(1) by simp
  have "readable_turbine e self signals (win_turbine_id row)"
    using assms(3) row by simp
  from load_turbine_readings_total [OF dt X this]
  obtain out where "load_turbine_readings e self ?X signals = Inr out"
    by blast
  then show ?thesis
    by (simp add: load_turbine_def)
qed

lemma load_turbines_total:
  assumes "start_dtype X = Datetime64"
    and "\<forall>turbine_id \<in> set turbine_ids.
           (\<exists>row \<in> set (win_rows X). win_turbine_id row = turbine_id)
           \<and> readable_turbine e self signals turbine_id"
  shows "\<exists>frames. load_turbines e self X signals turbine_ids = Inr frames
           \<and> length frames = length turbine_ids"
  using assms(2)
proof (induction turbine_ids)
  case Nil
  then show ?case by simp
next
  case (Cons turbine_id turbine_ids)
  from Cons.prems load_turbine_total [OF assms(1), of turbine_id e self signals]
  obtain fr where "load_turbine e self X signals turbine_id = Inr fr"
    by auto
  moreover from Cons.IH Cons.prems obtain frames where
    "load_turbines e self X signals turbine_ids = Inr frames"
    "length frames = length turbine_ids"
    by auto
  ultimately show ?case
    by simp
qed

lemma zip_events:
  "map (\<lambda>(turbine_id, start, end').
          \<lparr>win_turbine_id = turbine_id, win_start = start, win_end = end'\<rparr>)
     (zip (map ev_turbine_id X) (zip (map f X) (map ev_cutoff_time X)))
   = map (\<lambda>ev. \<lparr>win_turbine_id = ev_turbine_id ev, win_start = f ev,
                 win_end = ev_cutoff_time ev\<rparr>) X"
  by (induction X) auto

lemma get_times_no_lookback:
  assumes "window_size = None \<or> window_size = Some []"
  shows "get_times e X window_size
         = Inr \<lparr>start_dtype = Object, win_rows = map (event_window None) X\<rparr>"
  using assms zip_events [where f = "\<lambda>ev. datetime_min" and X = X]
  by (auto simp: get_times_def event_window_def map_replicate_const)

lemma get_times_lookback:
  assumes "window_size = Some w" "w \<noteq> []" "to_timedelta e w = Some d"
  shows "get_times e X window_size
         = (if \<forall>ev \<in> set X. timestamp_min \<le> ev_cutoff_time ev - d
                              \<and> ev_cutoff_time ev - d \<le> timestamp_max
            then Inr (lookback_table (map (event_window (Some d)) X))
            else Inl OverflowError)"
proof -
  let ?ok = "\<forall>ev \<in> set X. timestamp_min \<le> ev_cutoff_time ev - d
                             \<and> ev_cutoff_time ev - d \<le> timestamp_max"
  have ok: "list_all (\<lambda>c. timestamp_min \<le> c - d \<and> c - d \<le> timestamp_max)
              (map ev_cutoff_time X) \<longleftrightarrow> ?ok"
    by (simp add: list_all_iff)
  show ?thesis
  proof (cases ?ok)
    case True
    with assms ok zip_events [where f = "\<lambda>ev. ev_cutoff_time ev - d" and X = X]
    show ?thesis
      by (simp add: get_times_def event_window_def comp_def lookback_table_def Let_def)
  next
    case False
    with assms ok show ?thesis
      by (simp add: get_times_def Let_def)
  qed
qed

lemma get_times_given:
  assumes "lookback_given e window_size = Some lookback"
    and "\<forall>d. lookback = Some d \<longrightarrow>
           (\<forall>ev \<in> set X. timestamp_min \<le> ev_cutoff_time ev - d
                           \<and> ev_cutoff_time ev - d \<le> timestamp_max)"
  shows "get_times e X window_size
         = Inr \<lparr>start_dtype = (case lookback of None \<Rightarrow> Object | Some d \<Rightarrow> Datetime64),
                win_rows = map (event_window lookback) X\<rparr>"
proof (cases window_size)
  case None
  with assms(1) get_times_no_lookback [of window_size e X] show ?thesis
    by (simp add: lookback_given_def)
next
  case (Some w)
  show ?thesis
  proof (cases "w = []")
    case True
    with Some assms(1) get_times_no_lookback [of window_size e X] show ?thesis
      by (simp add: lookback_given_def)
  next
    case False
    with Some assms(1) obtain d where d: "to_timedelta e w = Some d" "lookback = Some d"
      by (auto simp: lookback_given_def split: option.splits)
    with assms(2) have "\<forall>ev \<in> set X. timestamp_min \<le> ev_cutoff_time ev - d
                                      \<and> ev_cutoff_time ev - d \<le> timestamp_max"
      by simp
    with get_times_lookback [OF Some False d(1), of X] d(2) show ?thesis
      by (simp add: lookback_table_def)
  qed
qed

lemma distinct_unique: "distinct (unique xs)" and set_unique: "set (unique xs) = set xs"
  by (simp_all add: unique_def)

lemma load_readings_total:
  assumes "X \<noteq> []"
    and "lookback_given e window_size = Some (Some d)"
    and "\<forall>ev \<in> set X. timestamp_min \<le> ev_cutoff_time ev - d
                        \<and> ev_cutoff_time ev - d \<le> timestamp_max"
    and "\<forall>ev \<in> set X. readable_turbine e self signals (ev_turbine_id ev)"
  shows "\<exists>out. load_readings e self X signals window_size = Inr out"
proof -
  let ?W = "\<lparr>start_dtype = Datetime64, win_rows = map (event_window (Some d)) X\<rparr>"
  let ?ids = "sort (unique (map ev_turbine_id X))"
  have W: "get_times e X window_size = Inr ?W"
    using get_times_given [OF assms(2), of X] assms(3) by simp
  have "\<forall>turbine_id \<in> set ?ids.
          (\<exists>row \<in> set (win_rows ?W). win_turbine_id row = turbine_id)
          \<and> readable_turbine e self signals turbine_id"
    using assms(4) by (auto simp: set_unique event_window_def)
  with load_turbines_total [of ?W ?ids e self signals] obtain frames where
    frames: "load_turbines e self ?W signals ?ids = Inr frames" "length frames = length ?ids"
    by auto
  from assms(1) have "?ids \<noteq> []"
    by (metis length_0_conv length_sort list.map_disc_iff set_empty set_unique)
  with frames(2) have "frames \<noteq> []"
    by auto
  then have "\<exists>out. pd_concat frames = Inr out"
    by (simp add: pd_concat_def)
  with W frames(1) show ?thesis
    by (simp add: load_readings_def)
qed

subsection \<open>The loop over the turbines\<close>

lemma load_turbines_list_all2:
  "load_turbines e self X signals turbine_ids = Inr frames \<Longrightarrow>
   list_all2 (\<lambda>turbine_id fr. load_turbine e self X signals turbine_id = Inr fr) turbine_ids frames"
  by (induction turbine_ids arbitrary: frames) (auto split: sum.splits)

lemma load_turbine_tag:
  "load_turbine e self X signals turbine_id = Inr fr \<Longrightarrow>
   \<forall>r \<in> set (rows fr). rd_turbine_id r = turbine_id"
  by (auto simp: load_turbine_def set_turbine_id_def Let_def split: sum.splits)

lemma sorted_concat_tagged:
  "list_all2 (\<lambda>turbine_id fr. \<forall>r \<in> set (rows fr). rd_turbine_id r = turbine_id) ids frames \<Longrightarrow>
   sorted ids \<Longrightarrow>
   sorted (map rd_turbine_id (concat (map rows frames)))
   \<and> set (map rd_turbine_id (concat (map rows frames))) \<subseteq> set ids"
proof (induction rule: list_all2_induct)
  case Nil
  then show ?case by simp
next
  case (Cons turbine_id ids fr frames)
  then have IH: "sorted (map rd_turbine_id (concat (map rows frames)))"
    "set (map rd_turbine_id (concat (map rows frames))) \<subseteq> set ids"
    by simp_all
  have "sorted (map rd_turbine_id (rows fr))"
    using Cons.hyps(1) by (simp add: sorted_iff_nth_mono)
  moreover have "x \<le> y" if "x \<in> set (map rd_turbine_id (rows fr))"
    "y \<in> set (map rd_turbine_id (concat (map rows frames)))" for x y
  proof -
    from that(1) Cons.hyps(1) have "x = turbine_id" by auto
    moreover from that(2) IH(2) have "y \<in> set ids" by blast
    ultimately show ?thesis using Cons.prems by simp
  qed
  ultimately have "sorted (map rd_turbine_id (rows fr) @ map rd_turbine_id (concat (map rows frames)))"
    using IH(1) by (simp add: sorted_append)
  then have s: "sorted (map rd_turbine_id (concat (map rows (fr # frames))))"
    by simp
  have "set (map rd_turbine_id (rows fr)) \<subseteq> {turbine_id}"
    using Cons.hyps(1) by auto
  with IH(2) have "set (map rd_turbine_id (rows fr)) \<union> set (map rd_turbine_id (concat (map rows frames)))
                   \<subseteq> set (turbine_id # ids)"
    by auto
  then have "set (map rd_turbine_id (concat (map rows (fr # frames)))) \<subseteq> set (turbine_id # ids)"
    by simp
  with s show ?case
    by blast
qed

lemma load_readings_sorted:
  assumes "load_readings e self X signals window_size = Inr out"
  shows "\<exists>W frames.
           get_times e X window_size = Inr W
           \<and> list_all2 (\<lambda>turbine_id fr. load_turbine e self W signals turbine_id = Inr fr)
                 (sort (unique (map ev_turbine_id X))) frames
           \<and> rows out = concat (map rows frames)
           \<and> sorted (map rd_turbine_id (rows out))"
proof -
  let ?ids = "sort (unique (map ev_turbine_id X))"
  from assms obtain W frames where W: "get_times e X window_size = Inr W"
    and fs: "load_turbines e self W signals ?ids = Inr frames"
    and cat: "pd_concat frames = Inr out"
    by (auto simp: load_readings_def Let_def split: sum.splits)
  from cat have out: "rows out = concat (map rows frames)"
    by (auto simp: pd_concat_def split: if_splits)
  note all2 = load_turbines_list_all2 [OF fs]
  then have "list_all2 (\<lambda>turbine_id fr. \<forall>r \<in> set (rows fr). rd_turbine_id r = turbine_id)
               ?ids frames"
    by (rule list_all2_mono) (rule load_turbine_tag)
  from sorted_concat_tagged [OF this sorted_sort]
  have srt: "sorted (map rd_turbine_id (rows out))"
    unfolding out by (rule conjunct1)
  show ?thesis
    by (intro exI [of _ W] exI [of _ frames] conjI W all2 out srt)
qed

subsection \<open>The call as a whole\<close>

lemma parse_column_Inr:
  "parse_column p shw cs = Inr ts \<Longrightarrow> map p cs = map Some ts"
  by (induction cs arbitrary: ts) (auto split: option.splits sum.splits)

lemma map2_events:
  "length rs = length ts \<Longrightarrow>
   map ev_turbine_id (map2 (\<lambda>r t. \<lparr>ev_turbine_id = tt_turbine_id r, ev_cutoff_time = t\<rparr>) rs ts)
     = map tt_turbine_id rs
   \<and> map ev_cutoff_time (map2 (\<lambda>r t. \<lparr>ev_turbine_id = tt_turbine_id r, ev_cutoff_time = t\<rparr>) rs ts)
     = ts"
  by (induction rs ts rule: list_induct2) auto

lemma load_returns:
  assumes "fst (load e self heap target_times signals window_size return_target) = Inr res"
  shows "\<exists>X0 cutoffs signals'.
           target_table e heap target_times = Some X0
           \<and> parse_column (to_datetime_cell e) show_cell (map tt_cutoff_time (tt_rows X0))
               = Inr cutoffs
           \<and> normalise_signals e signals = Inr signals'
           \<and> load_readings e self
                 (map2 (\<lambda>r t. \<lparr>ev_turbine_id = tt_turbine_id r, ev_cutoff_time = t\<rparr>)
                    (tt_rows X0) cutoffs)
                 signals' window_size = Inr (res_readings res)"
proof -
  from assms obtain X0 where X0: "target_table e heap target_times = Some X0"
    by (cases target_times)
       (auto simp: load_def target_table_def split: option.splits)
  then have tbl: "(case target_times of
                     DataFrame a \<Rightarrow> Inr (heap ! a)
                   | CsvPath p \<Rightarrow>
                       (case read_target_times_csv e p of
                          None \<Rightarrow> Inl (FileNotFound p)
                        | Some t \<Rightarrow> Inr t)) = Inr X0"
    by (auto simp: target_table_def split: target_arg.splits)
  from assms obtain cutoffs where
    cutoffs: "parse_column (to_datetime_cell e) show_cell (map tt_cutoff_time (tt_rows X0))
              = Inr cutoffs"
    unfolding load_def tbl by (auto simp: Let_def split: sum.splits)
  from assms obtain signals' where signals': "normalise_signals e signals = Inr signals'"
    unfolding load_def tbl by (auto simp: cutoffs Let_def split: sum.splits if_splits)
  from assms have "load_readings e self
                     (map2 (\<lambda>r t. \<lparr>ev_turbine_id = tt_turbine_id r, ev_cutoff_time = t\<rparr>)
                        (tt_rows X0) cutoffs)
                     signals' window_size = Inr (res_readings res)"
    unfolding load_def tbl
    by (auto simp: cutoffs signals' Let_def split: sum.splits if_splits)
  with X0 cutoffs signals' show ?thesis
    by blast
qed

lemma load_total:
  assumes parse: "\<forall>r \<in> set (tt_rows (heap ! a)). to_datetime_cell e (tt_cutoff_time r) \<noteq> None"
    and dist: "distinct (map (entity_cutoff e) (tt_rows (heap ! a)))"
    and rows: "tt_rows (heap ! a) \<noteq> []"
    and sig: "normalise_signals e signals = Inr signals'"
    and lb: "lookback_given e window_size = Some (Some d)"
    and range: "\<forall>r \<in> set (tt_rows (heap ! a)). \<forall>c.
                  to_datetime_cell e (tt_cutoff_time r) = Some c \<longrightarrow>
                  timestamp_min \<le> c - d \<and> c - d \<le> timestamp_max"
    and logs: "\<forall>r \<in> set (tt_rows (heap ! a)). readable_turbine e self signals' (tt_turbine_id r)"
    and target: "return_target \<longrightarrow> tt_has_target (heap ! a)"
  shows "\<exists>res. fst (load e self heap (DataFrame a) signals window_size return_target) = Inr res"
proof -
  let ?rs = "tt_rows (heap ! a)"
  let ?ts = "map (\<lambda>c. the (to_datetime_cell e c)) (map tt_cutoff_time ?rs)"
  let ?X1 = "map2 (\<lambda>r t. r\<lparr>tt_cutoff_time := Stamp t\<rparr>) ?rs ?ts"
  let ?ev = "map2 (\<lambda>r t. \<lparr>ev_turbine_id = tt_turbine_id r, ev_cutoff_time = t\<rparr>) ?rs ?ts"
  have pc: "parse_column (to_datetime_cell e) show_cell (map tt_cutoff_time ?rs) = Inr ?ts"
    using parse by (intro parse_column_total) auto
  have dd: "length (drop_duplicates (\<lambda>r. (tt_cutoff_time r, tt_turbine_id r)) ?X1) = length ?X1"
    unfolding length_drop_duplicates using parsed_keys_distinct [OF parse] dist by simp
  have ev: "?ev = map (\<lambda>r. \<lparr>ev_turbine_id = tt_turbine_id r,
                             ev_cutoff_time = the (to_datetime_cell e (tt_cutoff_time r))\<rparr>) ?rs"
    by (induction ?rs) (auto simp: zip_map2 map_zip_map2 zip_same_conv_map)
  have "?ev \<noteq> []"
    using rows by (simp add: ev)
  moreover have "\<forall>ev \<in> set ?ev. timestamp_min \<le> ev_cutoff_time ev - d
                                  \<and> ev_cutoff_time ev - d \<le> timestamp_max"
    using range parse unfolding ev by fastforce
  moreover have "\<forall>ev \<in> set ?ev. readable_turbine e self signals' (ev_turbine_id ev)"
    using logs unfolding ev by simp
  ultimately obtain out where
    out: "load_readings e self ?ev signals' window_size = Inr out"
    using load_readings_total [OF _ lb] by blast
  show ?thesis
    using target dd out
    by (auto simp add: load_def pc sig Let_def simp del: length_map length_zip)
qed

subsection \<open>Files named after the month of their rows\<close>

text \<open>
  The comparison of names loses no row of a file whose name is the rendering
  \<^verbatim>\<open>%Y-%m-.csv\<close> of the month of its rows: the rendering grows with the instant.
\<close>

lemma year_month_timestamp_max: "year_month timestamp_max = (2262, 4)"
  by code_simp

lemma filter_by_filename_month_names:
  assumes "filter_by_filename X filenames = Inr selected"
    and "filename \<in> set filenames" and "strftime_csv t = filename"
    and "row \<in> set (win_rows X)"
    and "win_start row \<le> t" and "t \<le> win_end row" and "win_end row \<le> timestamp_max"
  shows "filename \<in> set selected"
proof -
  from assms(1) have dt: "start_dtype X = Datetime64"
    by (auto simp: filter_by_filename_def Let_def split: if_splits)
  have "fst (year_month (win_end row)) \<le> 2262"
    using year_month_mono [OF assms(7)] by (auto simp: year_month_timestamp_max)
  then have end': "fst (year_month (win_end row)) \<le> 9999"
    by simp
  have "fst (year_month t) \<le> 9999"
    using year_month_mono [OF assms(6)] end' by linarith
  then have "strftime_csv (win_start row) \<le> filename"
    unfolding assms(3) [symmetric] using assms(5) by (intro strftime_csv_mono)
  moreover have "filename \<le> strftime_csv (win_end row)"
    unfolding assms(3) [symmetric] using assms(6) end' by (intro strftime_csv_mono)
  ultimately show ?thesis
    using assms(1,2,4) unfolding filter_by_filename_iff [OF dt] by auto
qed

subsection \<open>Evaluation of the concrete inputs\<close>

text \<open>
  The calendar at the ends of months and years, in leap years and at the ends of its
  range; 1970-01-01 is day 719162.
\<close>

lemma calendar_examples:
  "year_month (mk_timestamp 1 1 1 0 0 0) = (1, 1)"
  "year_month (mk_timestamp 1900 2 28 23 59 59) = (1900, 2)"
  "year_month (mk_timestamp 1900 3 1 0 0 0) = (1900, 3)"
  "year_month (mk_timestamp 2000 2 29 12 0 0) = (2000, 2)"
  "year_month (mk_timestamp 2019 12 31 23 59 59) = (2019, 12)"
  "year_month (mk_timestamp 2020 1 1 0 0 0) = (2020, 1)"
  "year_month (mk_timestamp 9999 12 31 23 59 59) = (9999, 12)"
  "mk_timestamp 1970 1 1 0 0 0 = 719162 * 86400"
  by code_simp+

text \<open>
  The range of pandas timestamps: \<open>- 9223372036\<close> and \<open>9223372036\<close> seconds from
  1970-01-01.
\<close>

lemma timestamp_range:
  "timestamp_min = 719162 * 86400 - 9223372036"
  "timestamp_max = 719162 * 86400 + 9223372036"
  by code_simp+

lemma timestamp_values:
  "timestamp_min = 52912224764"
  "timestamp_max = 71358968836"
  by (simp_all add: timestamp_range)

lemma scenario_instants:
  "mk_timestamp 2020 1 1 0 0 0 = 63713433600"
  "mk_timestamp 2020 1 16 0 0 0 = 63714729600"
  "mk_timestamp 2020 2 1 0 0 0 = 63716112000"
  "mk_timestamp 2020 2 10 0 0 0 = 63716889600"
  "mk_timestamp 2020 2 15 0 0 0 = 63717321600"
  "mk_timestamp 2020 2 16 0 0 0 = 63717408000"
  "mk_timestamp 2020 3 1 0 0 0 = 63718617600"
  by code_simp+

lemma scenario_rows_parse:
  "parse_mdy ''02/10/20 00:00:00'' = Some (mk_timestamp 2020 2 10 0 0 0)"
  "parse_mdy ''01/01/20 00:00:00'' = Some (mk_timestamp 2020 1 1 0 0 0)"
  by code_simp+

lemma scenario_strftime:
  "strftime_csv (mk_timestamp 2020 2 10 0 0 0) = ''2020-02-.csv''"
  "strftime_csv (mk_timestamp 2020 2 15 0 0 0) = ''2020-02-.csv''"
  "strftime_csv (mk_timestamp 2020 1 16 0 0 0) = ''2020-01-.csv''"
  "year_month (mk_timestamp 2020 2 15 0 0 0) = (2020, 2)"
  by code_simp+


lemma scenario_cutoff_parse:
  "parse_iso ''2020-02-15 00:00:00'' = Some (mk_timestamp 2020 2 15 0 0 0)"
  by code_simp

lemma scenario_lookback_parse: "parse_timedelta ''30d'' = Some 2592000"
  by code_simp


lemma header_lower:
  "str_lower ''timestamp'' = ''timestamp''"
  "str_lower ''signal'' = ''signal''"
  "str_lower ''value'' = ''value''"
  "str_lower ''Unnamed: 0'' = ''unnamed: 0''"
  "str_lower ''Timestamp'' = ''timestamp''"
  "str_lower ''Signal'' = ''signal''"
  "str_lower ''Value'' = ''value''"
  by code_simp+

lemmas scenario_defs =
  scenario_env_def reference_env_def scenario_loader_def scenario_target_times_def
  scenario_file_def scenario_rows_def

lemmas load_defs =
  load_def to_datetime_cell_def show_cell_def drop_duplicates_def normalise_signals_def
  load_readings_def unique_def get_times_def load_turbine_def load_turbine_readings_def
  path_join_def filter_by_filename_def pd_concat_def set_turbine_id_def
  load_readings_file_def filter_by_signal_def filter_by_timestamp_def

lemmas scenario_values =
  scenario_cutoff_parse scenario_lookback_parse scenario_rows_parse scenario_instants
  scenario_strftime [unfolded scenario_instants] timestamp_values header_lower

lemma load_scenario_store:
  "snd (load (scenario_env ''2020-02-.csv'') scenario_loader [scenario_target_times]
         (DataFrame 0) NoSignals (Some ''30d'') True)
   = [scenario_target_times,
      \<lparr>tt_rows = [\<lparr>tt_turbine_id = ''T1'', tt_cutoff_time = Stamp (mk_timestamp 2020 2 15 0 0 0),
                   tt_target = ''1''\<rparr>],
       tt_has_target = False\<rparr>]"
  by (simp add: load_defs scenario_defs scenario_values Let_def)

lemma load_scenario_named_with_dash:
  "fst (load (scenario_env ''2020-02-.csv'') scenario_loader [scenario_target_times]
         (DataFrame 0) NoSignals (Some ''30d'') True)
   = Inr \<lparr>res_X = 1, res_y = Some [''1''],
          res_readings = \<lparr>columns = [''timestamp'', ''signal_id'', ''value'', ''turbine_id''],
                           rows = [\<lparr>rd_timestamp = mk_timestamp 2020 2 10 0 0 0,
                                    rd_signal_id = ''S1'', rd_value = ''3.2'',
                                    rd_turbine_id = ''T1''\<rparr>]\<rparr>\<rparr>"
  by (simp add: load_defs scenario_defs scenario_values Let_def)

text \<open>
  Without a lookback the same call raises: the start column holds \<^verbatim>\<open>datetime.min\<close>
  objects, and line 146 asks it for \<^verbatim>\<open>.dt\<close>.
\<close>

lemma load_scenario_without_lookback:
  "fst (load (scenario_env ''2020-02-.csv'') scenario_loader [scenario_target_times]
         (DataFrame 0) NoSignals None True) = Inl AttributeError"
  by (simp add: load_defs scenario_defs scenario_values Let_def)

lemma load_two_turbines:
  "fst (load two_turbine_env scenario_loader [two_turbine_target_times]
         (DataFrame 0) NoSignals (Some ''30d'') True)
   = Inr \<lparr>res_X = 1, res_y = Some [''0'', ''1''], res_readings = two_turbine_readings\<rparr>"
  by (simp add: load_defs two_turbine_env_def two_turbine_target_times_def
        two_turbine_readings_def scenario_defs scenario_values Let_def)

section \<open>The claims\<close>

subsection \<open>C1: the selection of files is not conservative\<close>

text \<open>
  Claim C1 says that every file with a row inside a window is selected. The code selects
  by name and never looks at a row, and the class says of the files of a turbine that
  their names are not relevant (lines 110 to 112). On the scenario of the specification
  the windows that \<^verbatim>\<open>_get_times\<close> builds are the one window from 2020-01-16 to
  2020-02-15; the file \<^verbatim>\<open>2020-02.csv\<close> holds a row of 2020-02-10, inside that window; and
  the selection yields no file, since \<^verbatim>\<open>'2020-02.csv' <= '2020-02-.csv'\<close> is false.
\<close>

theorem filter_by_filename_drops_relevant_file:
  "get_times (scenario_env ''2020-02.csv'') scenario_events (Some ''30d'')
     = Inr (lookback_table [scenario_window])
   \<and> read_readings_csv (scenario_env ''2020-02.csv'') ''readings/T1/2020-02.csv''
     = Some scenario_file
   \<and> rd_timestamp (parsed (scenario_env ''2020-02.csv'') (hd (rows scenario_file)))
     = mk_timestamp 2020 2 10 0 0 0
   \<and> win_start scenario_window \<le> mk_timestamp 2020 2 10 0 0 0
   \<and> mk_timestamp 2020 2 10 0 0 0 \<le> win_end scenario_window
   \<and> filter_by_filename (lookback_table [scenario_window]) [''2020-02.csv''] = Inr []"
  by (simp add: get_times_def scenario_events_def lookback_table_def scenario_window_def
        parsed_def filter_by_filename_def scenario_defs scenario_values Let_def)

subsection \<open>C2: the scenario of the specification\<close>

text \<open>
  Claim C2 says that the call on the scenario returns the row of 2020-02-10 and not the
  row of 2020-01-01. The code, on that input, returns no row at all: the cutoff
  2020-02-15 is encoded as \<^verbatim>\<open>2020-02-.csv\<close>, the file is named \<^verbatim>\<open>2020-02.csv\<close>, and
  \<^verbatim>\<open>'2020-02.csv' <= '2020-02-.csv'\<close> is false, so the file is never read. The theorem
  evaluates the call; the lemma \<open>load_scenario_named_with_dash\<close> above is the same call
  with the file named \<^verbatim>\<open>2020-02-.csv\<close>, which returns the row of 2020-02-10 alone.
\<close>

theorem load_scenario_drops_the_file:
  "fst (load (scenario_env ''2020-02.csv'') scenario_loader [scenario_target_times]
         (DataFrame 0) NoSignals (Some ''30d'') True)
   = Inr \<lparr>res_X = 1, res_y = Some [''1''],
          res_readings = \<lparr>columns = [''timestamp'', ''signal_id'', ''value'', ''turbine_id''],
                           rows = []\<rparr>\<rparr>"
  by (simp add: load_defs scenario_defs scenario_values Let_def)

subsection \<open>C3: the duplicate check\<close>

text \<open>
  Claim C3, as stated, fails in its first half: a table without duplicates does not make
  the call succeed. With one target event and no directory for its turbine the call
  raises the error of \<^verbatim>\<open>os.listdir\<close>.
\<close>

theorem load_fails_without_duplicates:
  "distinct (map (entity_cutoff (reference_env [] [])) (tt_rows scenario_target_times))
   \<and> fst (load (reference_env [] []) scenario_loader [scenario_target_times]
           (DataFrame 0) NoSignals (Some ''30d'') True) = Inl (FileNotFound ''readings/T1'')"
  by (simp add: load_defs scenario_defs scenario_values entity_cutoff_def Let_def)

text \<open>
  Claim C3, amended. For every table of target events whose cutoffs parse, the call
  raises the validation error if and only if two rows have the same entity and the same
  parsed cutoff, whatever the signals, the lookback, the flag and the files are, and a
  table with the same rows in another order gets the same verdict. And a table without a
  duplicate makes the call return when the rest of the input is in order: the table has
  a row; the signals are absent, a list, or a file that can be read; a lookback is given,
  \<^verbatim>\<open>pd.to_timedelta\<close> reads it, and no cutoff less the lookback leaves the range of pandas
  timestamps; the directory of every turbine of the table can be listed, and every file
  in it can be read, has columns of different names, among them \<^verbatim>\<open>timestamp\<close> (and
  \<^verbatim>\<open>signal_id\<close> or \<^verbatim>\<open>signal\<close> when signals are given), and timestamps of the format
  of line 178 only; and the table has the label column when the label is asked for.
\<close>

theorem load_duplicate_check:
  assumes "\<forall>r \<in> set (tt_rows (heap ! a)). to_datetime_cell e (tt_cutoff_time r) \<noteq> None"
    and "mset (tt_rows (heap' ! a')) = mset (tt_rows (heap ! a))"
  shows "(fst (load e self heap (DataFrame a) signals window_size return_target) = Inl DuplicateRows
            \<longleftrightarrow> \<not> distinct (map (entity_cutoff e) (tt_rows (heap ! a))))
         \<and> (fst (load e self heap' (DataFrame a') signals window_size return_target)
               = Inl DuplicateRows
            \<longleftrightarrow> fst (load e self heap (DataFrame a) signals window_size return_target)
               = Inl DuplicateRows)
         \<and> (distinct (map (entity_cutoff e) (tt_rows (heap ! a)))
            \<and> tt_rows (heap ! a) \<noteq> []
            \<and> normalise_signals e signals = Inr signals'
            \<and> lookback_given e window_size = Some (Some d)
            \<and> (\<forall>r \<in> set (tt_rows (heap ! a)). \<forall>c.
                  to_datetime_cell e (tt_cutoff_time r) = Some c \<longrightarrow>
                  timestamp_min \<le> c - d \<and> c - d \<le> timestamp_max)
            \<and> (\<forall>r \<in> set (tt_rows (heap ! a)).
                  readable_turbine e self signals' (tt_turbine_id r))
            \<and> (return_target \<longrightarrow> tt_has_target (heap ! a))
            \<longrightarrow> (\<exists>res. fst (load e self heap (DataFrame a) signals window_size return_target)
                         = Inr res))"
proof -
  from assms(2) have set_eq: "set (tt_rows (heap' ! a')) = set (tt_rows (heap ! a))"
    by (rule mset_eq_setD)
  with assms(1)
  have parse': "\<forall>r \<in> set (tt_rows (heap' ! a')). to_datetime_cell e (tt_cutoff_time r) \<noteq> None"
    by simp
  from assms(2)
  have "mset (map (entity_cutoff e) (tt_rows (heap' ! a')))
        = mset (map (entity_cutoff e) (tt_rows (heap ! a)))"
    by (metis mset_map)
  then have "distinct (map (entity_cutoff e) (tt_rows (heap' ! a')))
             \<longleftrightarrow> distinct (map (entity_cutoff e) (tt_rows (heap ! a)))"
    by (rule mset_eq_imp_distinct_iff)
  with load_duplicates_iff [OF assms(1)] load_duplicates_iff [OF parse']
  have dup: "(fst (load e self heap (DataFrame a) signals window_size return_target)
                = Inl DuplicateRows
              \<longleftrightarrow> \<not> distinct (map (entity_cutoff e) (tt_rows (heap ! a))))
             \<and> (fst (load e self heap' (DataFrame a') signals window_size return_target)
                  = Inl DuplicateRows
                \<longleftrightarrow> fst (load e self heap (DataFrame a) signals window_size return_target)
                  = Inl DuplicateRows)"
    by simp
  have ret: "\<exists>res. fst (load e self heap (DataFrame a) signals window_size return_target)
                    = Inr res"
    if "distinct (map (entity_cutoff e) (tt_rows (heap ! a)))"
      "tt_rows (heap ! a) \<noteq> []"
      "normalise_signals e signals = Inr signals'"
      "lookback_given e window_size = Some (Some d)"
      "\<forall>r \<in> set (tt_rows (heap ! a)). \<forall>c.
         to_datetime_cell e (tt_cutoff_time r) = Some c \<longrightarrow>
         timestamp_min \<le> c - d \<and> c - d \<le> timestamp_max"
      "\<forall>r \<in> set (tt_rows (heap ! a)). readable_turbine e self signals' (tt_turbine_id r)"
      "return_target \<longrightarrow> tt_has_target (heap ! a)"
    using load_total [OF assms(1) that] .
  from dup ret show ?thesis
    by blast
qed

text \<open>
  Witness of C3: three rows of which the first and the third are the same event, one
  given as a text and one as an instant, and the same rows in another order; and the
  scenario with the file named \<^verbatim>\<open>2020-02-.csv\<close>, on which the call returns.
\<close>

theorem load_duplicate_check_witness:
  "fst (load (scenario_env ''2020-02-.csv'') scenario_loader [duplicate_target_times]
         (DataFrame 0) NoSignals (Some ''30d'') True) = Inl DuplicateRows
   \<and> fst (load (scenario_env ''2020-02-.csv'') scenario_loader [duplicate_target_times_reordered]
           (DataFrame 0) NoSignals (Some ''30d'') True) = Inl DuplicateRows
   \<and> readable_turbine (scenario_env ''2020-02-.csv'') scenario_loader None ''T1''
   \<and> (\<exists>res. fst (load (scenario_env ''2020-02-.csv'') scenario_loader [scenario_target_times]
                   (DataFrame 0) NoSignals (Some ''30d'') True) = Inr res)"
proof -
  let ?e = "scenario_env ''2020-02-.csv''"
  have a: "\<forall>r \<in> set (tt_rows ([duplicate_target_times] ! 0)).
             to_datetime_cell ?e (tt_cutoff_time r) \<noteq> None"
    by (simp add: duplicate_target_times_def to_datetime_cell_def scenario_env_def
          reference_env_def scenario_cutoff_parse)
  have b: "mset (tt_rows ([duplicate_target_times_reordered] ! 0))
           = mset (tt_rows ([duplicate_target_times] ! 0))"
    by (simp add: duplicate_target_times_def duplicate_target_times_reordered_def)
  have c: "\<not> distinct (map (entity_cutoff ?e) (tt_rows ([duplicate_target_times] ! 0)))"
    by (simp add: duplicate_target_times_def entity_cutoff_def to_datetime_cell_def
          scenario_env_def reference_env_def scenario_cutoff_parse)
  have a': "\<forall>r \<in> set (tt_rows ([scenario_target_times] ! 0)).
              to_datetime_cell ?e (tt_cutoff_time r) \<noteq> None"
    by (simp add: scenario_target_times_def to_datetime_cell_def scenario_env_def
          reference_env_def scenario_cutoff_parse)
  have b': "mset (tt_rows ([scenario_target_times] ! 0)) = mset (tt_rows ([scenario_target_times] ! 0))"
    by simp
  have h1: "distinct (map (entity_cutoff ?e) (tt_rows ([scenario_target_times] ! 0)))"
    by (simp add: scenario_target_times_def)
  have h2: "tt_rows ([scenario_target_times] ! 0) \<noteq> []"
    by (simp add: scenario_target_times_def)
  have h3: "normalise_signals ?e NoSignals = Inr None"
    by (simp add: normalise_signals_def)
  have h4: "lookback_given ?e (Some ''30d'') = Some (Some 2592000)"
    by (simp add: lookback_given_def scenario_env_def reference_env_def scenario_lookback_parse)
  have h5: "\<forall>r \<in> set (tt_rows ([scenario_target_times] ! 0)). \<forall>c.
              to_datetime_cell ?e (tt_cutoff_time r) = Some c \<longrightarrow>
              timestamp_min \<le> c - 2592000 \<and> c - 2592000 \<le> timestamp_max"
    by (simp add: scenario_target_times_def to_datetime_cell_def scenario_env_def
          reference_env_def scenario_cutoff_parse scenario_instants timestamp_values)
  have h6: "readable_turbine ?e scenario_loader None ''T1''"
    by (simp add: readable_turbine_def readable_file_def load_readings_file_def path_join_def
          scenario_defs scenario_values Let_def)
  then have h6': "\<forall>r \<in> set (tt_rows ([scenario_target_times] ! 0)).
                    readable_turbine ?e scenario_loader None (tt_turbine_id r)"
    by (simp add: scenario_target_times_def)
  have h7: "True \<longrightarrow> tt_has_target ([scenario_target_times] ! 0)"
    by (simp add: scenario_target_times_def)
  from load_duplicate_check [OF a b, of scenario_loader NoSignals "Some ''30d''" True] c
  have "fst (load ?e scenario_loader [duplicate_target_times]
               (DataFrame 0) NoSignals (Some ''30d'') True) = Inl DuplicateRows
        \<and> fst (load ?e scenario_loader [duplicate_target_times_reordered]
                 (DataFrame 0) NoSignals (Some ''30d'') True) = Inl DuplicateRows"
    by simp
  moreover
  from load_duplicate_check [OF a' b', of scenario_loader NoSignals "Some ''30d''" True
      None 2592000] h1 h2 h3 h4 h5 h6' h7
  have "\<exists>res. fst (load ?e scenario_loader [scenario_target_times]
                     (DataFrame 0) NoSignals (Some ''30d'') True) = Inr res"
    by blast
  ultimately show ?thesis
    using h6 by blast
qed

subsection \<open>C4: a file is selected when its name lies between the bounds of one window\<close>




subsection \<open>C5: one window per target event\<close>

text \<open>
  Claim C5, as stated, fails in its last part: \<^verbatim>\<open>pd.to_timedelta\<close> accepts a negative
  duration and \<^verbatim>\<open>_get_times\<close> does not check the sign, so a lookback of \<^verbatim>\<open>-1d\<close> gives a
  window that starts a day after it ends.
\<close>

theorem get_times_negative_lookback:
  "get_times (scenario_env ''2020-02-.csv'') scenario_events (Some ''-1d'')
     = Inr \<lparr>start_dtype = Datetime64,
            win_rows = [\<lparr>win_turbine_id = ''T1'', win_start = mk_timestamp 2020 2 16 0 0 0,
                          win_end = mk_timestamp 2020 2 15 0 0 0\<rparr>]\<rparr>
   \<and> \<not> mk_timestamp 2020 2 16 0 0 0 \<le> mk_timestamp 2020 2 15 0 0 0"
proof -
  have "parse_timedelta ''-1d'' = Some (- 86400)"
    by code_simp
  then show ?thesis
    by (simp add: get_times_def scenario_env_def reference_env_def scenario_events_def
          scenario_instants timestamp_values)
qed

text \<open>
  Claim C5, amended. When the lookback is absent, or is read by \<^verbatim>\<open>pd.to_timedelta\<close> with
  no cutoff less the lookback outside the range of pandas timestamps, \<^verbatim>\<open>_get_times\<close>
  returns one window per target event, in the order of the events; each window ends at
  the cutoff of its event and starts the lookback before it, or at the least instant
  when no lookback is given; the start column holds pandas timestamps in the first case
  and \<^verbatim>\<open>datetime.min\<close> objects in the second. Every window has its start before or at its
  end when the lookback is given and not negative, or is absent with no cutoff before
  the least instant.
\<close>

theorem get_times_one_window_per_event:
  assumes "lookback_given e window_size = Some lookback"
    and "\<forall>d. lookback = Some d \<longrightarrow>
           (\<forall>ev \<in> set X. timestamp_min \<le> ev_cutoff_time ev - d
                           \<and> ev_cutoff_time ev - d \<le> timestamp_max)"
  shows "\<exists>W. get_times e X window_size = Inr W
             \<and> win_rows W = map (event_window lookback) X
             \<and> start_dtype W = (case lookback of None \<Rightarrow> Object | Some d \<Rightarrow> Datetime64)
             \<and> ((case lookback of
                    None \<Rightarrow> \<forall>ev \<in> set X. datetime_min \<le> ev_cutoff_time ev
                  | Some d \<Rightarrow> 0 \<le> d)
                 \<longrightarrow> (\<forall>row \<in> set (win_rows W). win_start row \<le> win_end row))"
proof -
  let ?W = "\<lparr>start_dtype = (case lookback of None \<Rightarrow> Object | Some d \<Rightarrow> Datetime64),
             win_rows = map (event_window lookback) X\<rparr>"
  have W: "get_times e X window_size = Inr ?W"
    using assms by (rule get_times_given)
  have "\<forall>row \<in> set (win_rows ?W). win_start row \<le> win_end row"
    if "case lookback of None \<Rightarrow> \<forall>ev \<in> set X. datetime_min \<le> ev_cutoff_time ev
        | Some d \<Rightarrow> 0 \<le> d"
    using that by (auto simp: event_window_def split: option.splits)
  with W show ?thesis
    by (intro exI [of _ ?W]) simp
qed

text \<open>Witness of C5: the cutoff 2020-02-15 and a lookback of 30 days.\<close>

theorem get_times_one_window_per_event_witness:
  "lookback_given (scenario_env ''2020-02-.csv'') (Some ''30d'') = Some (Some 2592000)
   \<and> list_all (\<lambda>ev. timestamp_min \<le> ev_cutoff_time ev - 2592000
                    \<and> ev_cutoff_time ev - 2592000 \<le> timestamp_max) scenario_events
   \<and> get_times (scenario_env ''2020-02-.csv'') scenario_events (Some ''30d'')
       = Inr \<lparr>start_dtype = Datetime64,
              win_rows = [\<lparr>win_turbine_id = ''T1'', win_start = mk_timestamp 2020 1 16 0 0 0,
                            win_end = mk_timestamp 2020 2 15 0 0 0\<rparr>]\<rparr>
   \<and> mk_timestamp 2020 1 16 0 0 0 \<le> mk_timestamp 2020 2 15 0 0 0"
proof -
  let ?e = "scenario_env ''2020-02-.csv''"
  have a: "lookback_given ?e (Some ''30d'') = Some (Some 2592000)"
    by (simp add: lookback_given_def scenario_env_def reference_env_def scenario_lookback_parse)
  have b: "\<forall>ev \<in> set scenario_events. timestamp_min \<le> ev_cutoff_time ev - 2592000
                                       \<and> ev_cutoff_time ev - 2592000 \<le> timestamp_max"
    by (simp add: scenario_events_def scenario_instants timestamp_values)
  then have b': "\<forall>d. Some (2592000::int) = Some d \<longrightarrow>
                   (\<forall>ev \<in> set scenario_events. timestamp_min \<le> ev_cutoff_time ev - d
                                                 \<and> ev_cutoff_time ev - d \<le> timestamp_max)"
    by simp
  from get_times_one_window_per_event [OF a b'] obtain W where
    W: "get_times ?e scenario_events (Some ''30d'') = Inr W"
      "win_rows W = map (event_window (Some 2592000)) scenario_events"
      "start_dtype W = Datetime64"
      "\<forall>row \<in> set (win_rows W). win_start row \<le> win_end row"
    by auto
  have rows: "map (event_window (Some 2592000)) scenario_events
              = [\<lparr>win_turbine_id = ''T1'', win_start = mk_timestamp 2020 1 16 0 0 0,
                  win_end = mk_timestamp 2020 2 15 0 0 0\<rparr>]"
    by (simp add: scenario_events_def event_window_def scenario_instants)
  from W(2,3) rows
  have eq: "W = \<lparr>start_dtype = Datetime64,
                 win_rows = [\<lparr>win_turbine_id = ''T1'', win_start = mk_timestamp 2020 1 16 0 0 0,
                               win_end = mk_timestamp 2020 2 15 0 0 0\<rparr>]\<rparr>"
    by (cases W) simp
  from W(4) have "mk_timestamp 2020 1 16 0 0 0 \<le> mk_timestamp 2020 2 15 0 0 0"
    unfolding eq by simp
  with a b W(1) eq show ?thesis
    by (simp add: list_all_iff)
qed

subsection \<open>C6: a row is kept when it lies in some window, and kept once\<close>

text \<open>
  Claim C6: when every timestamp of the table parses, \<^verbatim>\<open>_filter_by_timestamp\<close> returns
  the rows whose timestamp lies in at least one window, both ends included, in their
  order and each as often as the table holds it: the result is the table with the other
  rows removed, so a row inside several windows is not repeated.
\<close>

theorem filter_by_timestamp_keeps_window_rows_once:
  assumes "\<forall>r \<in> set (rows data). to_datetime_format e (raw_timestamp r) \<noteq> None"
  shows "\<exists>out. filter_by_timestamp e data X = Inr out
               \<and> rows out = map (parsed e)
                               (filter (\<lambda>r. in_some_window X (rd_timestamp (parsed e r))) (rows data))"
  using filter_by_timestamp_eq [OF assms] by simp

text \<open>
  Witness of C6: two windows that overlap, a row of 2020-02-10 inside both and a row of
  2020-01-01 inside none; the result holds the first row once.
\<close>

theorem filter_by_timestamp_keeps_window_rows_once_witness:
  "list_all (\<lambda>r. to_datetime_format (scenario_env ''2020-02-.csv'') (raw_timestamp r) \<noteq> None)
     (rows scenario_frame)
   \<and> (\<exists>out. filter_by_timestamp (scenario_env ''2020-02-.csv'') scenario_frame overlapping_windows
                  = Inr out
              \<and> rows out = [\<lparr>rd_timestamp = mk_timestamp 2020 2 10 0 0 0, rd_signal_id = ''S1'',
                               rd_value = ''3.2''\<rparr>])"
proof -
  let ?e = "scenario_env ''2020-02-.csv''"
  have h: "\<forall>r \<in> set (rows scenario_frame). to_datetime_format ?e (raw_timestamp r) \<noteq> None"
    by (simp add: scenario_frame_def scenario_rows_def scenario_env_def reference_env_def
          scenario_rows_parse)
  have "map (parsed ?e)
          (filter (\<lambda>r. in_some_window overlapping_windows (rd_timestamp (parsed ?e r)))
             (rows scenario_frame))
        = [\<lparr>rd_timestamp = mk_timestamp 2020 2 10 0 0 0, rd_signal_id = ''S1'', rd_value = ''3.2''\<rparr>]"
    by (simp add: scenario_frame_def scenario_rows_def scenario_env_def reference_env_def
          scenario_rows_parse parsed_def in_some_window_def overlapping_windows_def scenario_instants)
  with filter_by_timestamp_keeps_window_rows_once [OF h, of overlapping_windows] h
  show ?thesis by (simp add: list_all_iff)
qed

subsection \<open>C7: both ends of a window are included\<close>

text \<open>
  Claim C7: for every window (its start not after its end), a row whose timestamp is the
  start or the end of the window is in the result of \<^verbatim>\<open>_filter_by_timestamp\<close>.
\<close>

theorem filter_by_timestamp_inclusive:
  assumes "\<forall>r \<in> set (rows data). to_datetime_format e (raw_timestamp r) \<noteq> None"
    and "row \<in> set X" and "win_start row \<le> win_end row"
    and "r \<in> set (rows data)"
    and "rd_timestamp (parsed e r) = win_start row \<or> rd_timestamp (parsed e r) = win_end row"
  shows "\<exists>out. filter_by_timestamp e data X = Inr out \<and> parsed e r \<in> set (rows out)"
proof -
  from assms(2,3,5) have "in_some_window X (rd_timestamp (parsed e r))"
    by (auto simp: in_some_window_def)
  with assms(4) show ?thesis
    unfolding filter_by_timestamp_eq [OF assms(1)] by simp
qed

text \<open>
  Witness of C7: the window from 2020-01-01 to 2020-02-10 keeps the row of its end and
  the row of its start.
\<close>

theorem filter_by_timestamp_inclusive_witness:
  "(\<exists>out. filter_by_timestamp (scenario_env ''2020-02-.csv'') scenario_frame endpoint_window = Inr out
          \<and> \<lparr>rd_timestamp = win_end (hd endpoint_window), rd_signal_id = ''S1'', rd_value = ''3.2''\<rparr>
              \<in> set (rows out))
   \<and> (\<exists>out. filter_by_timestamp (scenario_env ''2020-02-.csv'') scenario_frame endpoint_window = Inr out
          \<and> \<lparr>rd_timestamp = win_start (hd endpoint_window), rd_signal_id = ''S1'', rd_value = ''9.9''\<rparr>
              \<in> set (rows out))"
proof -
  let ?e = "scenario_env ''2020-02-.csv''"
  let ?w = "hd endpoint_window"
  have h: "\<forall>r \<in> set (rows scenario_frame). to_datetime_format ?e (raw_timestamp r) \<noteq> None"
    by (simp add: scenario_frame_def scenario_rows_def scenario_env_def reference_env_def
          scenario_rows_parse)
  have w: "?w \<in> set endpoint_window" "win_start ?w \<le> win_end ?w"
    by (simp_all add: endpoint_window_def scenario_instants)
  have r1: "scenario_rows ! 0 \<in> set (rows scenario_frame)"
    and r2: "scenario_rows ! 1 \<in> set (rows scenario_frame)"
    by (simp_all add: scenario_frame_def scenario_rows_def)
  have p1: "parsed ?e (scenario_rows ! 0)
            = \<lparr>rd_timestamp = win_end ?w, rd_signal_id = ''S1'', rd_value = ''3.2''\<rparr>"
    and p2: "parsed ?e (scenario_rows ! 1)
            = \<lparr>rd_timestamp = win_start ?w, rd_signal_id = ''S1'', rd_value = ''9.9''\<rparr>"
    by (simp_all add: parsed_def scenario_rows_def scenario_env_def reference_env_def
          scenario_rows_parse endpoint_window_def)
  have q1: "rd_timestamp (parsed ?e (scenario_rows ! 0)) = win_start ?w
            \<or> rd_timestamp (parsed ?e (scenario_rows ! 0)) = win_end ?w"
    and q2: "rd_timestamp (parsed ?e (scenario_rows ! 1)) = win_start ?w
            \<or> rd_timestamp (parsed ?e (scenario_rows ! 1)) = win_end ?w"
    unfolding p1 p2 by simp_all
  from filter_by_timestamp_inclusive [OF h w r1 q1] filter_by_timestamp_inclusive [OF h w r2 q2]
  show ?thesis
    unfolding p1 p2 by blast
qed

subsection \<open>C8: a turbine without readings gives the empty table\<close>



subsection \<open>C9: the turbines are read in sorted order\<close>

text \<open>
  Claim C9: when the call of \<^verbatim>\<open>load\<close> returns, the turbines it has read are the entities
  of its table of target events, each once, in strictly increasing order of their ids;
  every one of them was read with the windows of the call and gave a table; the rows of
  the readings table that the call returns are the rows of these tables, one table after
  the other in that order; so the turbine column of the returned table is sorted.
\<close>

theorem load_readings_in_sorted_turbine_order:
  assumes "fst (load e self heap target_times signals window_size return_target) = Inr res"
  shows "\<exists>X0 events signals' W frames.
           target_table e heap target_times = Some X0
           \<and> map ev_turbine_id events = map tt_turbine_id (tt_rows X0)
           \<and> normalise_signals e signals = Inr signals'
           \<and> get_times e events window_size = Inr W
           \<and> list_all2 (\<lambda>turbine_id fr. load_turbine e self W signals' turbine_id = Inr fr)
                 (sort (unique (map tt_turbine_id (tt_rows X0)))) frames
           \<and> sorted_wrt (<) (sort (unique (map tt_turbine_id (tt_rows X0))))
           \<and> set (sort (unique (map tt_turbine_id (tt_rows X0)))) = tt_turbine_id ` set (tt_rows X0)
           \<and> rows (res_readings res) = concat (map rows frames)
           \<and> sorted (map rd_turbine_id (rows (res_readings res)))"
proof -
  from load_returns [OF assms] obtain X0 cutoffs signals' where
    X0: "target_table e heap target_times = Some X0"
    and cutoffs: "parse_column (to_datetime_cell e) show_cell (map tt_cutoff_time (tt_rows X0))
                  = Inr cutoffs"
    and signals': "normalise_signals e signals = Inr signals'"
    and readings: "load_readings e self
                     (map2 (\<lambda>r t. \<lparr>ev_turbine_id = tt_turbine_id r, ev_cutoff_time = t\<rparr>)
                        (tt_rows X0) cutoffs)
                     signals' window_size = Inr (res_readings res)"
    by blast
  let ?events = "map2 (\<lambda>r t. \<lparr>ev_turbine_id = tt_turbine_id r, ev_cutoff_time = t\<rparr>)
                   (tt_rows X0) cutoffs"
  let ?ids = "sort (unique (map tt_turbine_id (tt_rows X0)))"
  from parse_column_Inr [OF cutoffs] have "length (tt_rows X0) = length cutoffs"
    by (metis length_map)
  from map2_events [OF this] have ids: "map ev_turbine_id ?events = map tt_turbine_id (tt_rows X0)"
    by (rule conjunct1)
  from load_readings_sorted [OF readings] obtain W frames where
    W: "get_times e ?events window_size = Inr W"
    and all2: "list_all2 (\<lambda>turbine_id fr. load_turbine e self W signals' turbine_id = Inr fr)
                 (sort (unique (map ev_turbine_id ?events))) frames"
    and out: "rows (res_readings res) = concat (map rows frames)"
    and srt: "sorted (map rd_turbine_id (rows (res_readings res)))"
    by blast
  from all2 have all2': "list_all2 (\<lambda>turbine_id fr. load_turbine e self W signals' turbine_id = Inr fr)
                           ?ids frames"
    unfolding ids .
  have strict: "sorted_wrt (<) ?ids"
    by (simp add: strict_sorted_iff distinct_unique)
  have set: "set ?ids = tt_turbine_id ` set (tt_rows X0)"
    by (simp add: set_unique)
  show ?thesis
    by (intro exI [of _ X0] exI [of _ ?events] exI [of _ signals'] exI [of _ W]
          exI [of _ frames] conjI X0 ids signals' W all2' strict set out srt)
qed

text \<open>
  Witness of C9: the table of target events names T2 before T1; the call returns the
  row of T1 before the row of T2.
\<close>

theorem load_readings_in_sorted_turbine_order_witness:
  "fst (load two_turbine_env scenario_loader [two_turbine_target_times]
         (DataFrame 0) NoSignals (Some ''30d'') True)
     = Inr \<lparr>res_X = 1, res_y = Some [''0'', ''1''], res_readings = two_turbine_readings\<rparr>
   \<and> map tt_turbine_id (tt_rows two_turbine_target_times) = [''T2'', ''T1'']
   \<and> map rd_turbine_id (rows two_turbine_readings) = [''T1'', ''T2'']
   \<and> sorted (map rd_turbine_id (rows two_turbine_readings))"
proof -
  from load_readings_in_sorted_turbine_order [OF load_two_turbines]
  have "sorted (map rd_turbine_id (rows two_turbine_readings))"
    by auto
  moreover have "map tt_turbine_id (tt_rows two_turbine_target_times) = [''T2'', ''T1'']"
    by (simp add: two_turbine_target_times_def)
  moreover have "map rd_turbine_id (rows two_turbine_readings) = [''T1'', ''T2'']"
    by (simp add: two_turbine_readings_def)
  ultimately show ?thesis
    using load_two_turbines by blast
qed

subsection \<open>C10: the caller's table is left unchanged\<close>

text \<open>
  Claim C10: when the target events are given as a table in memory, the table the caller
  holds is, after the call, what it was before, whether the call returns or raises: the
  parsing of the cutoffs and the removal of the label column update the copy of line 274.
\<close>

theorem load_leaves_target_times_unchanged:
  "a < length heap \<Longrightarrow>
   snd (load e self heap (DataFrame a) signals window_size return_target) ! a = heap ! a"
  using load_heap_prefix [of heap e self "DataFrame a" signals window_size return_target]
  by (metis nth_take)

text \<open>
  Witness of C10: after the call on the scenario the caller's table is as before, and
  the table the call returns differs from it (its cutoffs are instants and its label
  column is gone).
\<close>

theorem load_leaves_target_times_unchanged_witness:
  "snd (load (scenario_env ''2020-02-.csv'') scenario_loader [scenario_target_times]
         (DataFrame 0) NoSignals (Some ''30d'') True) ! 0 = scenario_target_times
   \<and> snd (load (scenario_env ''2020-02-.csv'') scenario_loader [scenario_target_times]
           (DataFrame 0) NoSignals (Some ''30d'') True) ! 1 \<noteq> scenario_target_times"
  using load_leaves_target_times_unchanged [of 0 "[scenario_target_times]"
      "scenario_env ''2020-02-.csv''" scenario_loader NoSignals "Some ''30d''" True]
  by (simp add: load_scenario_store) (simp add: scenario_target_times_def)

end
